theory Spec2Isabelle
  imports Complex_Main "HOL-Library.Word" "HOL-Library.Log_Nat" "HOL-Library.Signed_Division"
begin

unbundle bit_operations_syntax

section \<open>Undefined behaviour and bounds-checked arrays\<close>

text \<open>
  The program is C. Every operation that C leaves undefined and that the modelled
  functions can reach is a value of \<open>fault\<close>: an array access outside the array, the
  overflow of a signed 32-bit computation, a division by zero, and the conversion of a
  floating value whose integral part the target integer type cannot hold. A function that
  can reach one of them returns \<open>fault + 'a\<close>, with \<open>Inl\<close> for the fault.
\<close>

datatype fault = OutOfBounds | SignedOverflow | DivisionByZero | FloatToIntRange

definition array_read :: "'a list \<Rightarrow> nat \<Rightarrow> fault + 'a" where
  "array_read xs i = (if i < length xs then Inr (xs ! i) else Inl OutOfBounds)"

definition array_write :: "'a list \<Rightarrow> nat \<Rightarrow> 'a \<Rightarrow> fault + 'a list" where
  "array_write xs i v = (if i < length xs then Inr (xs[i := v]) else Inl OutOfBounds)"

section \<open>gpio\_irq\_manager.c: the interrupt dispatch layer\<close>

text \<open>
  \<open>absolute_time_t\<close> is the SDK's 64-bit count of microseconds since boot, and
  \<open>absolute_time_diff_us\<close> its signed 64-bit difference \<open>(int64_t)(to - from)\<close>.
  \<open>uint\<close> and \<open>uint32_t\<close> are 32-bit words.
\<close>

type_synonym absolute_time_t = "64 word"

definition absolute_time_diff_us :: "absolute_time_t \<Rightarrow> absolute_time_t \<Rightarrow> int" where
  "absolute_time_diff_us t_from t_to = sint (t_to - t_from)"

definition MAX_GPIO_PINS :: nat where
  "MAX_GPIO_PINS = 30"

definition DEBOUNCE_DELAY_MS :: int where
  "DEBOUNCE_DELAY_MS = 200"

text \<open>
  The two global tables, with what the functions do to the outside: \<open>irq_enabled_log\<close>
  records the calls \<open>gpio_set_irq_enabled(gpio, event_mask, enabled)\<close> in order, and
  \<open>invoked\<close> the callbacks called, in order. A function pointer is \<open>'cb option\<close>,
  \<open>None\<close> for \<open>NULL\<close>.
\<close>

record 'cb irq_state =
  callbacks :: "'cb option list"
  last_interrupt_time :: "absolute_time_t list"
  irq_enabled_log :: "(32 word \<times> 32 word \<times> bool) list"
  invoked :: "'cb list"

text \<open>Both tables are declared with \<open>MAX_GPIO_PINS\<close> entries and are zero at boot.\<close>

definition irq_wf :: "'cb irq_state \<Rightarrow> bool" where
  "irq_wf s \<longleftrightarrow>
     length (callbacks s) = MAX_GPIO_PINS \<and> length (last_interrupt_time s) = MAX_GPIO_PINS"

definition irq_boot :: "'cb irq_state" where
  "irq_boot = \<lparr>callbacks = replicate MAX_GPIO_PINS None,
               last_interrupt_time = replicate MAX_GPIO_PINS 0,
               irq_enabled_log = [],
               invoked = []\<rparr>"

text \<open>
  \<open>gpio_irq_handler\<close>; \<open>t_now\<close> is what \<open>get_absolute_time()\<close> returns inside it.
  The left operand of \<open>&&\<close> guards the reads of both tables. The call
  \<open>callbacks[gpio]()\<close> reads the entry again, which nothing has changed since the test;
  what the callback itself does is outside this layer, and the call is recorded in
  \<open>invoked\<close>.
\<close>

definition gpio_irq_handler ::
  "absolute_time_t \<Rightarrow> 32 word \<Rightarrow> 32 word \<Rightarrow> 'cb irq_state \<Rightarrow> fault + 'cb irq_state" where
  "gpio_irq_handler t_now gpio events s =
     (if unat gpio < MAX_GPIO_PINS then
        (case array_read (callbacks s) (unat gpio) of
           Inl e \<Rightarrow> Inl e
         | Inr None \<Rightarrow> Inr s
         | Inr (Some cb) \<Rightarrow>
             (case array_read (last_interrupt_time s) (unat gpio) of
                Inl e \<Rightarrow> Inl e
              | Inr last_time \<Rightarrow>
                  if DEBOUNCE_DELAY_MS * 1000 < absolute_time_diff_us last_time t_now then
                    (case array_write (last_interrupt_time s) (unat gpio) t_now of
                       Inl e \<Rightarrow> Inl e
                     | Inr lt \<Rightarrow>
                         Inr (s\<lparr>last_interrupt_time := lt, invoked := invoked s @ [cb]\<rparr>))
                  else Inr s))
      else Inr s)"

definition register_gpio_callback ::
  "32 word \<Rightarrow> 'cb option \<Rightarrow> 32 word \<Rightarrow> 'cb irq_state \<Rightarrow> fault + 'cb irq_state" where
  "register_gpio_callback gpio callback event_mask s =
     (if unat gpio < MAX_GPIO_PINS then
        (case array_write (callbacks s) (unat gpio) callback of
           Inl e \<Rightarrow> Inl e
         | Inr cbs \<Rightarrow>
             Inr (s\<lparr>callbacks := cbs,
                    irq_enabled_log := irq_enabled_log s @ [(gpio, event_mask, True)]\<rparr>))
      else Inr s)"

definition remove_gpio_callback ::
  "32 word \<Rightarrow> 32 word \<Rightarrow> 'cb irq_state \<Rightarrow> fault + 'cb irq_state" where
  "remove_gpio_callback gpio event_mask s =
     (if unat gpio < MAX_GPIO_PINS then
        (case array_write (callbacks s) (unat gpio) None of
           Inl e \<Rightarrow> Inl e
         | Inr cbs \<Rightarrow>
             Inr (s\<lparr>callbacks := cbs,
                    irq_enabled_log := irq_enabled_log s @ [(gpio, event_mask, False)]\<rparr>))
      else Inr s)"

text \<open>The two callbacks of GENIUS.c, as the values stored in the table.\<close>

datatype button_callback = Btn_a_callback | Btn_b_callback

section \<open>Single-precision floating point\<close>

text \<open>
  A \<open>float\<close> is an IEEE 754 binary32 value: a finite value, given by the rational
  number it denotes, an infinity or a NaN. Arithmetic computes the exact rational result
  and rounds it to the nearest binary32 value, ties to even (\<open>f32_round\<close>): 24
  significant bits for a normal result, multiples of \<open>2 powi (-149)\<close> below
  \<open>2 powi (-126)\<close>, an infinity from \<open>2 ^ 128\<close> on. The sign of a zero is not
  kept; the only place where it would show is the sign of the infinity that a division by
  zero gives, and a zero divisor is taken as positive there.
\<close>

datatype f32 = Fin rat | PInf | NInf | NaN

text \<open>\<open>flog2 a\<close> is the integer \<open>e\<close> with \<open>2 powi e \<le> a < 2 powi (e + 1)\<close>, for \<open>0 < a\<close>.\<close>

definition flog2 :: "rat \<Rightarrow> int" where
  "flog2 a = (if 1 \<le> a then bitlen \<lfloor>a\<rfloor> - 1 else - bitlen (\<lceil>1 / a\<rceil> - 1))"

definition round_half_even :: "rat \<Rightarrow> int" where
  "round_half_even q =
     (let f = \<lfloor>q\<rfloor>; r = q - of_int f
      in if r < 1 / 2 then f else if 1 / 2 < r then f + 1
         else if even f then f else f + 1)"

definition f32_round :: "rat \<Rightarrow> f32" where
  "f32_round v =
     (if v = 0 then Fin 0
      else let e = max (flog2 \<bar>v\<bar>) (- 126);
               u = 2 powi (e - 23);
               m = of_int (round_half_even (\<bar>v\<bar> / u)) * u
           in if 2 ^ 128 \<le> m then (if 0 < v then PInf else NInf)
              else Fin (sgn v * m))"

fun f32_neg :: "f32 \<Rightarrow> f32" where
  "f32_neg (Fin a) = Fin (- a)"
| "f32_neg PInf = NInf"
| "f32_neg NInf = PInf"
| "f32_neg NaN = NaN"

fun f32_add :: "f32 \<Rightarrow> f32 \<Rightarrow> f32" where
  "f32_add (Fin a) (Fin b) = f32_round (a + b)"
| "f32_add NaN y = NaN"
| "f32_add x NaN = NaN"
| "f32_add (Fin a) y = y"
| "f32_add x (Fin b) = x"
| "f32_add x y = (if x = y then x else NaN)"

definition f32_sub :: "f32 \<Rightarrow> f32 \<Rightarrow> f32" where
  "f32_sub x y = f32_add x (f32_neg y)"

fun f32_mul :: "f32 \<Rightarrow> f32 \<Rightarrow> f32" where
  "f32_mul (Fin a) (Fin b) = f32_round (a * b)"
| "f32_mul NaN y = NaN"
| "f32_mul x NaN = NaN"
| "f32_mul (Fin a) y = (if a = 0 then NaN else if 0 < a then y else f32_neg y)"
| "f32_mul x (Fin b) = (if b = 0 then NaN else if 0 < b then x else f32_neg x)"
| "f32_mul x y = (if x = y then PInf else NInf)"

fun f32_div :: "f32 \<Rightarrow> f32 \<Rightarrow> f32" where
  "f32_div (Fin a) (Fin b) =
     (if b = 0 then (if a = 0 then NaN else if 0 < a then PInf else NInf)
      else f32_round (a / b))"
| "f32_div NaN y = NaN"
| "f32_div x NaN = NaN"
| "f32_div (Fin a) y = Fin 0"
| "f32_div x (Fin b) = (if 0 \<le> b then x else f32_neg x)"
| "f32_div x y = NaN"

text \<open>Conversion of an integer value (of any integer type) to \<open>float\<close>.\<close>

definition f32_of_int :: "int \<Rightarrow> f32" where
  "f32_of_int i = f32_round (of_int i)"

text \<open>
  Conversion of a \<open>float\<close> to \<open>int\<close> and to \<open>uint32_t\<close>: the fractional part is
  discarded; the behaviour is undefined when the integral part is not a value of the type.
\<close>

definition c_trunc :: "rat \<Rightarrow> int" where
  "c_trunc r = (if 0 \<le> r then \<lfloor>r\<rfloor> else \<lceil>r\<rceil>)"

definition f32_to_int32 :: "f32 \<Rightarrow> fault + 32 word" where
  "f32_to_int32 x =
     (case x of
        Fin r \<Rightarrow>
          if - (2 ^ 31) \<le> c_trunc r \<and> c_trunc r < 2 ^ 31 then Inr (word_of_int (c_trunc r))
          else Inl FloatToIntRange
      | _ \<Rightarrow> Inl FloatToIntRange)"

definition f32_to_uint32 :: "f32 \<Rightarrow> fault + 32 word" where
  "f32_to_uint32 x =
     (case x of
        Fin r \<Rightarrow>
          if 0 \<le> c_trunc r \<and> c_trunc r < 2 ^ 32 then Inr (word_of_int (c_trunc r))
          else Inl FloatToIntRange
      | _ \<Rightarrow> Inl FloatToIntRange)"

section \<open>The board: clock, ADC, pins and PWM\<close>

text \<open>
  What the program does to the board is a trace of the SDK calls it makes, in order; a
  call of \<open>play_tone\<close> is recorded with its arguments before the PWM calls it makes.
  The board's clock \<open>now\<close> counts microseconds; in the model it moves only in
  \<open>sleep_ms\<close>, by the time asked for. \<open>adc_channel\<close> and \<open>gpio_level\<close> are the
  levels at the analog and digital inputs, \<open>clk_sys_hz\<close> is \<open>clock_get_hz(clk_sys)\<close>.
  The SDK's functions are taken at their documented meaning: \<open>time_reached\<close> compares
  the clock with a timestamp, \<open>make_timeout_time_ms\<close> adds milliseconds to the clock,
  \<open>pwm_gpio_to_slice_num\<close> is \<open>(gpio >> 1) & 7\<close>. Console output (\<open>printf\<close>) is
  not part of the model.
\<close>

datatype hw_event =
    Play_tone "32 word" "32 word" "32 word"
  | Pwm_set_wrap "32 word" "16 word"
  | Pwm_set_clkdiv "32 word" f32
  | Pwm_set_gpio_level "32 word" "16 word"
  | Pwm_set_enabled "32 word" bool
  | Sleep_ms "32 word"

record board =
  now :: absolute_time_t
  clk_sys_hz :: "32 word"
  adc_selected :: "32 word"
  adc_channel :: "32 word \<Rightarrow> 16 word"
  gpio_level :: "32 word \<Rightarrow> bool"
  trace :: "hw_event list"

definition emit :: "hw_event \<Rightarrow> board \<Rightarrow> board" where
  "emit ev h = h\<lparr>trace := trace h @ [ev]\<rparr>"

definition sleep_ms :: "32 word \<Rightarrow> board \<Rightarrow> board" where
  "sleep_ms ms h = (emit (Sleep_ms ms) h)\<lparr>now := now h + 1000 * ucast ms\<rparr>"

definition time_reached :: "board \<Rightarrow> absolute_time_t \<Rightarrow> bool" where
  "time_reached h t \<longleftrightarrow> t \<le> now h"

definition make_timeout_time_ms :: "board \<Rightarrow> 32 word \<Rightarrow> absolute_time_t" where
  "make_timeout_time_ms h ms = now h + 1000 * ucast ms"

definition pwm_gpio_to_slice_num :: "32 word \<Rightarrow> 32 word" where
  "pwm_gpio_to_slice_num gpio = drop_bit 1 gpio AND 7"

definition pwm_set_gpio_level :: "32 word \<Rightarrow> 16 word \<Rightarrow> board \<Rightarrow> board" where
  "pwm_set_gpio_level gpio level h = emit (Pwm_set_gpio_level gpio level) h"

section \<open>BuzzerPi.c\<close>

definition CLK_DIV_DEFAULT :: f32 where
  "CLK_DIV_DEFAULT = Fin 125"

definition BUZZER_PIN :: "32 word" where
  "BUZZER_PIN = 21"

text \<open>
  \<open>calculate_wrap\<close>. One operand of each operation is a \<open>float\<close>, so the quotient and
  the subtraction of 1 are computed in \<open>float\<close>; \<open>wrap_u32\<close> is the initialiser of the
  local \<open>uint32_t wrap\<close>, converted from that \<open>float\<close>. The conditional expression is a
  \<open>uint32_t\<close>, converted to the \<open>uint16_t\<close> returned.
\<close>

definition wrap_u32 :: "32 word \<Rightarrow> 32 word \<Rightarrow> f32 \<Rightarrow> fault + 32 word" where
  "wrap_u32 clock_freq target_frequency clkdiv =
     f32_to_uint32
       (f32_sub
          (f32_div (f32_of_int (uint clock_freq))
                   (f32_mul (f32_of_int (uint target_frequency)) clkdiv))
          (f32_of_int 1))"

definition calculate_wrap :: "32 word \<Rightarrow> 32 word \<Rightarrow> f32 \<Rightarrow> fault + 16 word" where
  "calculate_wrap clock_freq target_frequency clkdiv =
     (case wrap_u32 clock_freq target_frequency clkdiv of
        Inl e \<Rightarrow> Inl e
      | Inr wrap \<Rightarrow> Inr (ucast (if 65535 < wrap then 65535 else wrap)))"

definition play_tone :: "32 word \<Rightarrow> 32 word \<Rightarrow> 32 word \<Rightarrow> board \<Rightarrow> fault + board" where
  "play_tone pin freq duration_ms h =
     (let slice_num = pwm_gpio_to_slice_num pin
      in case calculate_wrap (clk_sys_hz h) freq CLK_DIV_DEFAULT of
           Inl e \<Rightarrow> Inl e
         | Inr wrap_value \<Rightarrow>
             Inr (pwm_set_gpio_level pin 0
                   (sleep_ms duration_ms
                     (emit (Pwm_set_enabled slice_num True)
                       (pwm_set_gpio_level pin (wrap_value div 2)
                         (emit (Pwm_set_clkdiv slice_num CLK_DIV_DEFAULT)
                           (emit (Pwm_set_wrap slice_num wrap_value)
                             (emit (Play_tone pin freq duration_ms) h))))))))"

section \<open>JoystickPi.c\<close>

text \<open>\<open>joystick_state_t\<close>; its fields \<open>x\<close>, \<open>y\<close> and \<open>button\<close> are \<open>jx\<close>, \<open>jy\<close>, \<open>jbutton\<close>.\<close>

record joystick_state_t =
  jx :: "16 word"
  jy :: "16 word"
  jbutton :: bool

definition JOYSTICK_BUTTON_PIN :: "32 word" where
  "JOYSTICK_BUTTON_PIN = 22"

definition joystickPi_read :: "board \<Rightarrow> joystick_state_t \<times> board" where
  "joystickPi_read h =
     (\<lparr>jx = adc_channel h 0, jy = adc_channel h 1,
       jbutton = (\<not> gpio_level h JOYSTICK_BUTTON_PIN)\<rparr>,
      h\<lparr>adc_selected := 1\<rparr>)"

text \<open>
  \<open>joystickPi_map_value\<close>. The operands are promoted to the 32-bit \<open>int\<close>, so the
  differences cannot overflow; the product and the sum can, and the divisor can be zero.
  The division is C's, truncating (\<open>sdiv\<close>). The \<open>int\<close> result is converted to
  \<open>int16_t\<close> by keeping its low 16 bits.
\<close>

definition int32_range :: "int \<Rightarrow> bool" where
  "int32_range v \<longleftrightarrow> - (2 ^ 31) \<le> v \<and> v < 2 ^ 31"

definition joystickPi_map_value ::
  "16 word \<Rightarrow> 16 word \<Rightarrow> 16 word \<Rightarrow> 16 word \<Rightarrow> 16 word \<Rightarrow> fault + 16 word" where
  "joystickPi_map_value val min_input max_input min_output max_output =
     (let product = (uint val - uint min_input) * (sint max_output - sint min_output);
          divisor = uint max_input - uint min_input
      in if \<not> int32_range product then Inl SignedOverflow
         else if divisor = 0 then Inl DivisionByZero
         else if \<not> int32_range (product sdiv divisor + sint min_output) then Inl SignedOverflow
         else Inr (word_of_int (product sdiv divisor + sint min_output)))"

section \<open>GENIUS.c: the player\<close>

text \<open>
  \<open>int\<close> is a 32-bit word read as two's complement (\<open>sint\<close>). The field \<open>length\<close> of
  \<open>Melody\<close> is \<open>melody_length\<close>; the lists \<open>melody\<close> and \<open>durations\<close> are the arrays
  the two pointers point to, with their own extents. The note tables of
  \<open>inc/melody.h\<close> are not given, so the catalogue \<open>melodies\<close> is a parameter.
\<close>

record PlayerState =
  current_note :: "32 word"
  is_playing :: bool
  next_note_time :: absolute_time_t
  freq_mult :: f32
  current_freq :: "32 word"

record Melody =
  melody :: "32 word list"
  durations :: "32 word list"
  melody_length :: "32 word"
  name :: string

record Buttons =
  index :: "32 word"
  a_pressed :: bool
  b_pressed :: bool

record genius =
  buttons :: Buttons
  player :: PlayerState
  pico :: board

text \<open>Indexing an array with an \<open>int\<close>.\<close>

definition array_read_int :: "'a list \<Rightarrow> 32 word \<Rightarrow> fault + 'a" where
  "array_read_int xs i =
     (if 0 \<le> sint i then array_read xs (nat (sint i)) else Inl OutOfBounds)"

text \<open>
  \<open>handle_input\<close> is its two \<open>if\<close> statements in sequence, button A then button B.
  \<open>sizeof(melodies)/sizeof(Melody)\<close> is the number of entries of the catalogue, a
  \<open>size_t\<close>: the remainder is the unsigned one.
\<close>

definition handle_button_a :: "Melody list \<Rightarrow> genius \<Rightarrow> genius" where
  "handle_button_a melodies s =
     (if a_pressed (buttons s) then
        s\<lparr>buttons := (buttons s)
             \<lparr>index := (index (buttons s) + 1) mod word_of_nat (length melodies),
              a_pressed := False\<rparr>,
          player := (player s)\<lparr>is_playing := False\<rparr>\<rparr>
      else s)"

definition handle_button_b :: "genius \<Rightarrow> genius" where
  "handle_button_b s =
     (if b_pressed (buttons s) then
        s\<lparr>player := (player s)\<lparr>is_playing := (\<not> is_playing (player s)),
                                 current_note := 0\<rparr>,
          buttons := (buttons s)\<lparr>b_pressed := False\<rparr>\<rparr>
      else s)"

definition handle_input :: "Melody list \<Rightarrow> genius \<Rightarrow> genius" where
  "handle_input melodies s = handle_button_b (handle_button_a melodies s)"

text \<open>
  \<open>update_sound\<close>. \<open>note_done\<close> is its last two statements, reached from both branches
  of the test on \<open>original\<close>.
\<close>

definition note_done :: "genius \<Rightarrow> PlayerState \<Rightarrow> 32 word \<Rightarrow> board \<Rightarrow> genius" where
  "note_done s p duration h =
     s\<lparr>player := p\<lparr>current_note := current_note p + 1,
                    next_note_time := make_timeout_time_ms h duration\<rparr>,
       pico := h\<rparr>"

definition update_sound :: "Melody list \<Rightarrow> genius \<Rightarrow> fault + genius" where
  "update_sound melodies s =
     (if \<not> is_playing (player s) then
        Inr (s\<lparr>pico := pwm_set_gpio_level BUZZER_PIN 0 (pico s)\<rparr>)
      else
        let (js, h) = joystickPi_read (pico s);
            p = (player s)\<lparr>freq_mult :=
                   f32_add (Fin (1 / 2)) (f32_div (f32_of_int (uint (jx js))) (Fin 4095))\<rparr>
        in if time_reached h (next_note_time p) then
             (case array_read_int melodies (index (buttons s)) of
                Inl e \<Rightarrow> Inl e
              | Inr m \<Rightarrow>
                  if sint (melody_length m) \<le> sint (current_note p) then
                    Inr (s\<lparr>player := p\<lparr>is_playing := False\<rparr>, pico := h\<rparr>)
                  else
                    (case array_read_int (melody m) (current_note p) of
                       Inl e \<Rightarrow> Inl e
                     | Inr original \<Rightarrow>
                         (case array_read_int (durations m) (current_note p) of
                            Inl e \<Rightarrow> Inl e
                          | Inr duration \<Rightarrow>
                              if 0 < sint original then
                                (case f32_to_int32
                                        (f32_mul (f32_of_int (sint original)) (freq_mult p)) of
                                   Inl e \<Rightarrow> Inl e
                                 | Inr f \<Rightarrow>
                                     (case play_tone BUZZER_PIN f duration h of
                                        Inl e \<Rightarrow> Inl e
                                      | Inr h' \<Rightarrow>
                                          Inr (note_done s (p\<lparr>current_freq := f\<rparr>)
                                                 duration h')))
                              else
                                Inr (note_done s (p\<lparr>current_freq := 0\<rparr>) duration
                                       (sleep_ms duration h)))))
           else Inr (s\<lparr>player := p, pico := h\<rparr>))"

text \<open>
  Two abbreviations for the statements: the value \<open>update_sound\<close> assigns to
  \<open>freq_mult\<close> when it reads the joystick in state \<open>s\<close>, and the state \<open>s\<close> polled
  at the moment the clock reaches the stored deadline.
\<close>

definition new_freq_mult :: "genius \<Rightarrow> f32" where
  "new_freq_mult s =
     f32_add (Fin (1 / 2)) (f32_div (f32_of_int (uint (adc_channel (pico s) 0))) (Fin 4095))"

definition at_deadline :: "genius \<Rightarrow> genius" where
  "at_deadline s = s\<lparr>pico := (pico s)\<lparr>now := next_note_time (player s)\<rparr>\<rparr>"

text \<open>What a call of \<open>play_tone\<close> that programs the wrap value \<open>wrap_value\<close> records.\<close>

definition tone_events :: "32 word \<Rightarrow> 32 word \<Rightarrow> 32 word \<Rightarrow> 16 word \<Rightarrow> hw_event list" where
  "tone_events pin freq duration_ms wrap_value =
     [Play_tone pin freq duration_ms,
      Pwm_set_wrap (pwm_gpio_to_slice_num pin) wrap_value,
      Pwm_set_clkdiv (pwm_gpio_to_slice_num pin) CLK_DIV_DEFAULT,
      Pwm_set_gpio_level pin (wrap_value div 2),
      Pwm_set_enabled (pwm_gpio_to_slice_num pin) True,
      Sleep_ms duration_ms,
      Pwm_set_gpio_level pin 0]"

section \<open>Concrete states\<close>

text \<open>
  The program's globals at boot (all zero), a board one second after boot whose two ADC
  channels read \<open>x\<close> with no button pressed and a 125 MHz system clock, and a catalogue
  of three copies of a three-note melody.
\<close>

definition player_boot :: PlayerState where
  "player_boot = \<lparr>current_note = 0, is_playing = False, next_note_time = 0,
                  freq_mult = Fin 0, current_freq = 0\<rparr>"

definition buttons_boot :: Buttons where
  "buttons_boot = \<lparr>index = 0, a_pressed = False, b_pressed = False\<rparr>"

definition board_reading :: "16 word \<Rightarrow> board" where
  "board_reading x = \<lparr>now = 1000000, clk_sys_hz = 125000000, adc_selected = 0,
                       adc_channel = (\<lambda>c. x), gpio_level = (\<lambda>p. True), trace = []\<rparr>"

definition genius_boot :: "16 word \<Rightarrow> genius" where
  "genius_boot x = \<lparr>buttons = buttons_boot, player = player_boot, pico = board_reading x\<rparr>"

definition three_notes :: Melody where
  "three_notes = \<lparr>melody = [440, 0, 880], durations = [200, 100, 300],
                  melody_length = 3, name = ''three notes''\<rparr>"

definition catalogue :: "Melody list" where
  "catalogue = [three_notes, three_notes, three_notes]"

text \<open>
  A one-note melody, and the player switched to playing at the first note of the selected
  melody with the stored multiplier at 1, on a board whose joystick reads \<open>x\<close>.
\<close>

definition single_note :: "32 word \<Rightarrow> 32 word \<Rightarrow> Melody" where
  "single_note f d = \<lparr>melody = [f], durations = [d], melody_length = 1,
                      name = ''single note''\<rparr>"

definition playing_from_start :: "16 word \<Rightarrow> genius" where
  "playing_from_start x =
     (genius_boot x)\<lparr>player := player_boot\<lparr>is_playing := True, freq_mult := Fin 1\<rparr>\<rparr>"

text \<open>
  The player right after the last note of the selected three-note melody: still playing,
  \<open>current_note\<close> at the melody's length, the deadline one second ahead.
\<close>

definition after_last_note :: genius where
  "after_last_note =
     (genius_boot 2048)\<lparr>player := player_boot\<lparr>is_playing := True, current_note := 3,
                                               next_note_time := 2000000\<rparr>\<rparr>"

section \<open>Properties of the floating-point model\<close>

text \<open>
  \<open>flog2\<close> is the binary exponent; rounding to nearest even never crosses an integer,
  so \<open>f32_round\<close> never crosses a value with at most 24 significant bits: such a value
  bounds the rounded result from the side on which it bounds the exact one.
\<close>

lemma powi2_less_iff: "(2 :: rat) powi a < 2 powi b \<longleftrightarrow> a < b"
proof
  assume "(2 :: rat) powi a < 2 powi b"
  show "a < b"
  proof (rule ccontr)
    assume "\<not> a < b"
    then have "(2 :: rat) powi b \<le> 2 powi a"
      by (intro power_int_increasing) auto
    with \<open>(2 :: rat) powi a < 2 powi b\<close> show False
      by simp
  qed
next
  assume "a < b"
  then show "(2 :: rat) powi a < 2 powi b"
    by (intro power_int_strict_increasing) auto
qed

lemma powi2_le_iff: "(2 :: rat) powi a \<le> 2 powi b \<longleftrightarrow> a \<le> b"
  using powi2_less_iff [of b a] by (auto simp add: not_less [symmetric])

lemma flog2_bounds:
  assumes "0 < a"
  shows "2 powi (flog2 a) \<le> a" and "a < 2 powi (flog2 a + 1)"
proof -
  have "2 powi (flog2 a) \<le> a \<and> a < 2 powi (flog2 a + 1)"
  proof (cases "1 \<le> a")
    case True
    define n where "n = \<lfloor>a\<rfloor>"
    have n: "1 \<le> n" "of_int n \<le> a" "a < of_int n + 1"
      using True by (simp_all add: n_def le_floor_iff) linarith
    then have pos: "0 < n"
      by simp
    have bl: "1 \<le> bitlen n"
      using pos by (simp add: bitlen_alt_def)
    from bitlen_bounds [OF pos]
    have lo: "2 ^ nat (bitlen n - 1) \<le> n" and hi: "n < 2 ^ nat (bitlen n)"
      by simp_all
    have e: "flog2 a = bitlen n - 1"
      using True by (simp add: flog2_def n_def)
    have "(2 :: rat) powi (bitlen n - 1) = of_int (2 ^ nat (bitlen n - 1))"
      using bl by (simp add: power_int_def)
    also have "\<dots> \<le> of_int n"
      using lo by (simp only: of_int_le_iff)
    finally have a1: "2 powi (flog2 a) \<le> a"
      using n e by simp
    have "n + 1 \<le> 2 ^ nat (bitlen n)"
      using hi by simp
    then have "(of_int (n + 1) :: rat) \<le> of_int (2 ^ nat (bitlen n))"
      by (simp only: of_int_le_iff)
    moreover have "(2 :: rat) powi (bitlen n - 1 + 1) = of_int (2 ^ nat (bitlen n))"
      using bl by (simp add: power_int_def)
    ultimately have "a < 2 powi (flog2 a + 1)"
      using n e by simp
    with a1 show ?thesis
      by simp
  next
    case False
    define y where "y = 1 / a"
    define n where "n = \<lceil>y\<rceil> - 1"
    have y: "1 < y" "0 < y" "a = 1 / y"
      using False assms by (simp_all add: y_def)
    have n: "of_int n < y" "y \<le> of_int n + 1"
      by (simp_all add: n_def) linarith
    have pos: "0 < n"
      using y n by (simp add: n_def less_ceiling_iff)
    have bl: "1 \<le> bitlen n"
      using pos by (simp add: bitlen_alt_def)
    from bitlen_bounds [OF pos]
    have lo: "2 ^ nat (bitlen n - 1) \<le> n" and hi: "n < 2 ^ nat (bitlen n)"
      by simp_all
    have e: "flog2 a = - bitlen n"
      using False by (simp add: flog2_def n_def y_def)
    have "n + 1 \<le> 2 ^ nat (bitlen n)"
      using hi by simp
    then have "(of_int (n + 1) :: rat) \<le> of_int (2 ^ nat (bitlen n))"
      by (simp only: of_int_le_iff)
    then have "y \<le> 2 ^ nat (bitlen n)"
      using n by simp
    then have "1 / 2 ^ nat (bitlen n) \<le> 1 / y"
      using y by (intro divide_left_mono) auto
    then have "1 / 2 ^ nat (bitlen n) \<le> a"
      using y by simp
    moreover have "(2 :: rat) powi (- bitlen n) = 1 / 2 ^ nat (bitlen n)"
      using bl by (simp add: power_int_def field_simps)
    ultimately have a1: "2 powi (flog2 a) \<le> a"
      using e by simp
    have "(2 :: rat) ^ nat (bitlen n - 1) = of_int (2 ^ nat (bitlen n - 1))"
      by simp
    also have "\<dots> \<le> of_int n"
      using lo by (simp only: of_int_le_iff)
    also have "\<dots> < y"
      by (rule n(1))
    finally have "2 ^ nat (bitlen n - 1) < y" .
    then have "1 / y < 1 / 2 ^ nat (bitlen n - 1)"
      using y by (intro divide_strict_left_mono) auto
    then have "a < 1 / 2 ^ nat (bitlen n - 1)"
      using y by simp
    moreover have "(2 :: rat) powi (- bitlen n + 1) = 1 / 2 ^ nat (bitlen n - 1)"
      using bl by (simp add: power_int_def field_simps)
    ultimately have "a < 2 powi (flog2 a + 1)"
      using e by simp
    with a1 show ?thesis
      by simp
  qed
  then show "2 powi (flog2 a) \<le> a" and "a < 2 powi (flog2 a + 1)"
    by simp_all
qed

lemma round_half_even_le:
  assumes "q \<le> of_int N"
  shows "round_half_even q \<le> N"
proof -
  have f: "\<lfloor>q\<rfloor> \<le> N"
    using assms by (simp add: floor_le_iff)
  show ?thesis
  proof (cases "\<lfloor>q\<rfloor> = N")
    case True
    then have "q - of_int \<lfloor>q\<rfloor> \<le> 0"
      using assms by simp
    then show ?thesis
      using True by (simp add: round_half_even_def Let_def)
  next
    case False
    then have "\<lfloor>q\<rfloor> + 1 \<le> N"
      using f by simp
    then show ?thesis
      by (simp add: round_half_even_def Let_def)
  qed
qed

lemma round_half_even_ge:
  assumes "of_int N \<le> q"
  shows "N \<le> round_half_even q"
proof -
  have "N \<le> \<lfloor>q\<rfloor>"
    using assms by (simp add: le_floor_iff)
  then show ?thesis
    by (simp add: round_half_even_def Let_def)
qed


lemma round_half_even_nonneg: "0 \<le> q \<Longrightarrow> 0 \<le> round_half_even q"
  using round_half_even_ge [of 0 q] by simp

lemma f32_round_minus: "f32_round (- v) = f32_neg (f32_round v)"
  by (simp add: f32_round_def Let_def)

lemma f32_round_pos_unfold:
  assumes "0 < v"
  shows "f32_round v =
           (let u = 2 powi (max (flog2 v) (- 126) - 23);
                m = of_int (round_half_even (v / u)) * u
            in if 2 ^ 128 \<le> m then PInf else Fin m)"
  using assms by (simp add: f32_round_def Let_def)

lemma f32_round_le:
  assumes "0 < v" and "v \<le> of_int N * 2 powi j" and "N < 2 ^ 24" and "- 149 \<le> j"
    and "(of_int N :: rat) * 2 powi j < 2 ^ 128"
  shows "\<exists>r. f32_round v = Fin r \<and> 0 \<le> r \<and> r \<le> of_int N * 2 powi j"
proof -
  define e where "e = max (flog2 v) (- 126)"
  define u :: rat where "u = 2 powi (e - 23)"
  define k where "k = j - (e - 23)"
  define m where "m = of_int (round_half_even (v / u)) * u"
  have u: "0 < u"
    by (simp add: u_def)
  have "2 powi (flog2 v) \<le> v"
    using assms(1) by (rule flog2_bounds)
  also have "v \<le> of_int N * 2 powi j"
    by (rule assms(2))
  also have "\<dots> < 2 ^ 24 * 2 powi j"
    using assms(3) by (simp add: mult_strict_right_mono)
  also have "\<dots> = 2 powi (24 + j)"
    by (simp add: power_int_add)
  finally have "flog2 v < 24 + j"
    by (simp only: powi2_less_iff)
  then have k: "0 \<le> k"
    using assms(4) by (simp add: k_def e_def)
  have "j = k + (e - 23)"
    by (simp add: k_def)
  then have "(2 :: rat) powi j = 2 powi k * u"
    by (simp add: u_def power_int_add)
  also have "\<dots> = of_int (2 ^ nat k) * u"
    using k by (simp add: power_int_def)
  finally have R: "of_int N * 2 powi j = of_int (N * 2 ^ nat k) * u"
    by simp
  have "v / u \<le> of_int (N * 2 ^ nat k)"
    using assms(2) u unfolding R by (simp add: field_simps)
  then have "round_half_even (v / u) \<le> N * 2 ^ nat k"
    by (rule round_half_even_le)
  then have "(of_int (round_half_even (v / u)) :: rat) \<le> of_int (N * 2 ^ nat k)"
    by (simp only: of_int_le_iff)
  then have le: "m \<le> of_int N * 2 powi j"
    unfolding R m_def using u by (simp add: mult_right_mono)
  have "0 \<le> v / u"
    using assms(1) u by simp
  then have "0 \<le> round_half_even (v / u)"
    by (rule round_half_even_nonneg)
  then have ge: "0 \<le> m"
    using u by (simp add: m_def)
  have "f32_round v = Fin m"
    using le assms(5)
    by (simp add: f32_round_pos_unfold [OF assms(1)] Let_def e_def [symmetric]
        u_def [symmetric] m_def [symmetric])
  with le ge show ?thesis
    by blast
qed

lemma f32_round_ge:
  assumes "of_int N * 2 powi j \<le> v" and "0 < N" and "N < 2 ^ 24" and "- 149 \<le> j"
  shows "f32_round v = PInf \<or> (\<exists>r. f32_round v = Fin r \<and> of_int N * 2 powi j \<le> r)"
proof -
  define e where "e = max (flog2 v) (- 126)"
  define u :: rat where "u = 2 powi (e - 23)"
  define m where "m = of_int (round_half_even (v / u)) * u"
  have u: "0 < u"
    by (simp add: u_def)
  have "0 < (of_int N :: rat) * 2 powi j"
    using assms(2) by simp
  then have v: "0 < v"
    using assms(1) by simp
  have ge: "of_int N * 2 powi j \<le> m"
  proof (cases "e - 23 \<le> j")
    case True
    define k where "k = j - (e - 23)"
    have k: "0 \<le> k"
      using True by (simp add: k_def)
    have "j = k + (e - 23)"
      by (simp add: k_def)
    then have "(2 :: rat) powi j = 2 powi k * u"
      by (simp add: u_def power_int_add)
    also have "\<dots> = of_int (2 ^ nat k) * u"
      using k by (simp add: power_int_def)
    finally have R: "of_int N * 2 powi j = of_int (N * 2 ^ nat k) * u"
      by simp
    have "of_int (N * 2 ^ nat k) \<le> v / u"
      using assms(1) u unfolding R by (simp add: field_simps)
    then have "N * 2 ^ nat k \<le> round_half_even (v / u)"
      by (rule round_half_even_ge)
    then have "(of_int (N * 2 ^ nat k) :: rat) \<le> of_int (round_half_even (v / u))"
      by (simp only: of_int_le_iff)
    then show ?thesis
      unfolding R m_def using u by (simp add: mult_right_mono)
  next
    case False
    then have e: "e = flog2 v" and j: "24 + j \<le> e"
      using assms(4) by (simp_all add: e_def max_def split: if_splits)
    have "2 powi e \<le> v"
      unfolding e using v by (rule flog2_bounds)
    moreover have "(2 :: rat) powi e = of_int (2 ^ 23) * u"
      using power_int_add [of "2 :: rat" 23 "e - 23"] by (simp add: u_def)
    ultimately have "of_int (2 ^ 23) \<le> v / u"
      using u by (simp add: field_simps)
    then have "2 ^ 23 \<le> round_half_even (v / u)"
      by (rule round_half_even_ge)
    then have "(of_int (2 ^ 23) :: rat) \<le> of_int (round_half_even (v / u))"
      by (simp only: of_int_le_iff)
    then have "of_int (2 ^ 23) * u \<le> m"
      unfolding m_def using u by (simp add: mult_right_mono)
    then have "2 powi e \<le> m"
      using \<open>(2 :: rat) powi e = of_int (2 ^ 23) * u\<close> by simp
    moreover have "of_int N * 2 powi j \<le> 2 ^ 24 * (2 :: rat) powi j"
      using assms(3) by (simp add: mult_right_mono)
    moreover have "2 ^ 24 * (2 :: rat) powi j = 2 powi (24 + j)"
      by (simp add: power_int_add)
    moreover have "(2 :: rat) powi (24 + j) \<le> 2 powi e"
      using j by (simp only: powi2_le_iff)
    ultimately show ?thesis
      by linarith
  qed
  show ?thesis
    using ge
    by (simp add: f32_round_pos_unfold [OF v] Let_def e_def [symmetric]
        u_def [symmetric] m_def [symmetric])
qed

lemma f32_round_between:
  assumes "of_int L * 2 powi i \<le> v" and "0 < L" and "L < 2 ^ 24" and "- 149 \<le> i"
    and "v \<le> of_int N * 2 powi j" and "N < 2 ^ 24" and "- 149 \<le> j"
    and "(of_int N :: rat) * 2 powi j < 2 ^ 128"
  shows "\<exists>r. f32_round v = Fin r \<and> of_int L * 2 powi i \<le> r \<and> r \<le> of_int N * 2 powi j"
proof -
  have "0 < (of_int L :: rat) * 2 powi i"
    using assms(2) by simp
  then have v: "0 < v"
    using assms(1) by simp
  from f32_round_le [OF v assms(5-8)] obtain r where
    r: "f32_round v = Fin r" "r \<le> of_int N * 2 powi j"
    by blast
  with f32_round_ge [OF assms(1-4)] show ?thesis
    by auto
qed

lemma f32_of_int_zero: "f32_of_int 0 = Fin 0"
  by (simp add: f32_of_int_def f32_round_def)

lemma f32_of_int_one: "f32_of_int 1 = Fin 1"
  by code_simp

lemma rat_of_int_bounds:
  assumes "l \<le> i" and "i \<le> h"
  shows "(of_int l :: rat) \<le> of_int i" and "(of_int i :: rat) \<le> of_int h"
  using assms by (simp_all only: of_int_le_iff)

lemma f32_of_int_nonneg:
  assumes "0 \<le> i" and "i < 2 ^ 32"
  shows "\<exists>a. f32_of_int i = Fin a \<and> 0 \<le> a"
proof (cases "i = 0")
  case True
  then show ?thesis
    by (simp add: f32_of_int_zero)
next
  case False
  then have "0 < (of_int i :: rat)"
    using assms by simp
  moreover have "(of_int i :: rat) \<le> of_int 1 * 2 powi 32"
    using rat_of_int_bounds(2) [of 0 i "2 ^ 32"] assms by simp
  ultimately have "0 < (of_int i :: rat)" and "(of_int i :: rat) \<le> of_int 1 * 2 powi 32"
    by simp_all
  from f32_round_le [OF this] show ?thesis
    by (auto simp add: f32_of_int_def)
qed

lemma f32_round_unit:
  assumes "0 \<le> v" and "v \<le> 1"
  shows "\<exists>r. f32_round v = Fin r \<and> 0 \<le> r \<and> r \<le> 1"
proof (cases "v = 0")
  case True
  then show ?thesis
    by (simp add: f32_round_def)
next
  case False
  then have "0 < v" and "v \<le> of_int 1 * 2 powi 0"
    using assms by simp_all
  from f32_round_le [OF this] show ?thesis
    by simp
qed

text \<open>
  The multiplier \<open>0.5f + x / 4095.0f\<close> is at most 8191/8192 for a reading up to 2047 and at
  least 8193/8192 from 2048 on: no reading of the joystick gives exactly 1.
\<close>

lemma multiplier_below_centre:
  assumes "uint x \<le> 2047"
  shows "\<exists>r. f32_add (Fin (1 / 2)) (f32_div (f32_of_int (uint (x :: 16 word))) (Fin 4095)) = Fin r
            \<and> r \<le> 8191 / 8192"
proof -
  have "0 \<le> uint x" "uint x < 2 ^ 32"
    using uint_lt2p [of x] by simp_all
  from f32_of_int_nonneg [OF this] obtain a where
    a: "f32_of_int (uint x) = Fin a" "0 \<le> a"
    by blast
  have "a \<le> 2047"
  proof (cases "uint x = 0")
    case True
    then show ?thesis
      using a by (simp add: f32_of_int_zero)
  next
    case False
    then have "0 < uint x"
      using uint_ge_0 [of x] by linarith
    then have "0 < (of_int (uint x) :: rat)"
      by (simp only: of_int_0_less_iff)
    moreover have "(of_int (uint x) :: rat) \<le> of_int 2047 * 2 powi 0"
      using rat_of_int_bounds(2) [of 0 "uint x" 2047] assms by simp
    ultimately show ?thesis
      using f32_round_le [of "of_int (uint x)" 2047 0] a by (auto simp add: f32_of_int_def)
  qed
  then have "0 \<le> a / 4095" and "a / 4095 \<le> of_int 4095 * 2 powi (- 13)"
    using a by simp_all
  then have "\<exists>d. f32_round (a / 4095) = Fin d \<and> 0 \<le> d \<and> d \<le> 4095 / 8192"
    using f32_round_le [of "a / 4095" 4095 "- 13"]
    by (cases "a / 4095 = 0") (auto simp add: f32_round_def)
  then obtain d where d: "f32_round (a / 4095) = Fin d" "0 \<le> d" "d \<le> 4095 / 8192"
    by blast
  have "0 < 1 / 2 + d" and "1 / 2 + d \<le> of_int 8191 * 2 powi (- 13)"
    using d by simp_all
  from f32_round_le [OF this] obtain r where
    "f32_round (1 / 2 + d) = Fin r" "r \<le> 8191 / 8192"
    by auto
  then show ?thesis
    using a d by simp
qed

lemma multiplier_above_centre:
  assumes "2048 \<le> uint x"
  shows "\<exists>r. f32_add (Fin (1 / 2)) (f32_div (f32_of_int (uint (x :: 16 word))) (Fin 4095)) = Fin r
            \<and> 8193 / 8192 \<le> r"
proof -
  have "uint x \<le> 65535"
    using uint_lt2p [of x] by simp
  then have "of_int 1 * 2 powi 11 \<le> (of_int (uint x) :: rat)"
    and "(of_int (uint x) :: rat) \<le> of_int 65535 * 2 powi 0"
    using rat_of_int_bounds [of 2048 "uint x" 65535] assms by simp_all
  from f32_round_between [OF this(1) _ _ _ this(2)] obtain a where
    a: "f32_of_int (uint x) = Fin a" "2048 \<le> a" "a \<le> 65535"
    by (auto simp add: f32_of_int_def)
  have "of_int 4097 * 2 powi (- 13) \<le> a / 4095" and "a / 4095 \<le> of_int 17 * 2 powi 0"
    using a by simp_all
  from f32_round_between [OF this(1) _ _ _ this(2)] obtain d where
    d: "f32_round (a / 4095) = Fin d" "4097 / 8192 \<le> d" "d \<le> 17"
    by auto
  have "of_int 8193 * 2 powi (- 13) \<le> 1 / 2 + d" and "1 / 2 + d \<le> of_int 18 * 2 powi 0"
    using d by simp_all
  from f32_round_between [OF this(1) _ _ _ this(2)] obtain r where
    "f32_round (1 / 2 + d) = Fin r" "8193 / 8192 \<le> r"
    by auto
  then show ?thesis
    using a d by simp
qed

lemma multiplier_never_one:
  "f32_add (Fin (1 / 2)) (f32_div (f32_of_int (uint (x :: 16 word))) (Fin 4095)) \<noteq> Fin 1"
proof (cases "uint x \<le> 2047")
  case True
  from multiplier_below_centre [OF this] show ?thesis
    by auto
next
  case False
  then have "2048 \<le> uint x"
    by simp
  from multiplier_above_centre [OF this] show ?thesis
    by auto
qed

section \<open>Properties of the dispatch layer\<close>

lemma irq_wf_boot: "irq_wf irq_boot"
  by (simp add: irq_wf_def irq_boot_def)

lemma register_in_range:
  assumes "irq_wf s" and "unat gpio < MAX_GPIO_PINS"
  shows "register_gpio_callback gpio cb m s =
           Inr (s\<lparr>callbacks := (callbacks s)[unat gpio := cb],
                  irq_enabled_log := irq_enabled_log s @ [(gpio, m, True)]\<rparr>)"
  using assms by (simp add: register_gpio_callback_def array_write_def irq_wf_def)

lemma handler_accepts:
  assumes "irq_wf s" and "unat p < MAX_GPIO_PINS" and "callbacks s ! unat p = Some cb"
    and "200000 < absolute_time_diff_us (last_interrupt_time s ! unat p) t"
  shows "gpio_irq_handler t p ev s =
           Inr (s\<lparr>last_interrupt_time := (last_interrupt_time s)[unat p := t],
                  invoked := invoked s @ [cb]\<rparr>)"
  using assms
  by (simp add: gpio_irq_handler_def array_read_def array_write_def irq_wf_def
      DEBOUNCE_DELAY_MS_def)

lemma handler_vetoes:
  assumes "irq_wf s" and "unat p < MAX_GPIO_PINS" and "callbacks s ! unat p = Some cb"
    and "absolute_time_diff_us (last_interrupt_time s ! unat p) t \<le> 200000"
  shows "gpio_irq_handler t p ev s = Inr s"
  using assms
  by (simp add: gpio_irq_handler_def array_read_def array_write_def irq_wf_def
      DEBOUNCE_DELAY_MS_def)

text \<open>
  C1. On a valid pin with a registered callback, a dispatch whose elapsed time since the
  pin's last accepted trigger exceeds 200 ms (200000 microseconds) calls the callback once
  and stores the time of the dispatch as the pin's last trigger; a dispatch that does not
  exceed it leaves the whole state as it was (no call, no new timestamp). An accepted
  dispatch followed by one within the window of the first calls the callback once in all.
\<close>

theorem gpio_irq_handler_debounce:
  assumes "irq_wf s" and "unat p < MAX_GPIO_PINS" and "callbacks s ! unat p = Some cb"
  shows "(200000 < absolute_time_diff_us (last_interrupt_time s ! unat p) t1 \<longrightarrow>
            gpio_irq_handler t1 p ev s =
              Inr (s\<lparr>last_interrupt_time := (last_interrupt_time s)[unat p := t1],
                     invoked := invoked s @ [cb]\<rparr>))
       \<and> (absolute_time_diff_us (last_interrupt_time s ! unat p) t1 \<le> 200000 \<longrightarrow>
            gpio_irq_handler t1 p ev s = Inr s)
       \<and> (200000 < absolute_time_diff_us (last_interrupt_time s ! unat p) t1 \<and>
          absolute_time_diff_us t1 t2 \<le> 200000 \<longrightarrow>
            (\<exists>s1 s2. gpio_irq_handler t1 p ev s = Inr s1 \<and>
                     gpio_irq_handler t2 p ev' s1 = Inr s2 \<and>
                     invoked s2 = invoked s @ [cb] \<and>
                     last_interrupt_time s2 ! unat p = t1))"
proof (intro conjI impI)
  assume "200000 < absolute_time_diff_us (last_interrupt_time s ! unat p) t1"
  with assms show "gpio_irq_handler t1 p ev s =
              Inr (s\<lparr>last_interrupt_time := (last_interrupt_time s)[unat p := t1],
                     invoked := invoked s @ [cb]\<rparr>)"
    by (rule handler_accepts)
next
  assume "absolute_time_diff_us (last_interrupt_time s ! unat p) t1 \<le> 200000"
  with assms show "gpio_irq_handler t1 p ev s = Inr s"
    by (rule handler_vetoes)
next
  assume h: "200000 < absolute_time_diff_us (last_interrupt_time s ! unat p) t1 \<and>
             absolute_time_diff_us t1 t2 \<le> 200000"
  define s1 where
    "s1 = s\<lparr>last_interrupt_time := (last_interrupt_time s)[unat p := t1],
            invoked := invoked s @ [cb]\<rparr>"
  have first: "gpio_irq_handler t1 p ev s = Inr s1"
    unfolding s1_def using assms h by (simp add: handler_accepts)
  have wf1: "irq_wf s1" and cb1: "callbacks s1 ! unat p = Some cb"
    using assms by (simp_all add: s1_def irq_wf_def)
  have last1: "last_interrupt_time s1 ! unat p = t1"
    using assms by (simp add: s1_def irq_wf_def)
  have second: "gpio_irq_handler t2 p ev' s1 = Inr s1"
    using wf1 assms(2) cb1 h last1 by (simp add: handler_vetoes)
  have "invoked s1 = invoked s @ [cb]"
    by (simp add: s1_def)
  with first second last1 show
    "\<exists>s1 s2. gpio_irq_handler t1 p ev s = Inr s1 \<and> gpio_irq_handler t2 p ev' s1 = Inr s2 \<and>
             invoked s2 = invoked s @ [cb] \<and> last_interrupt_time s2 ! unat p = t1"
    by blast
qed

theorem gpio_irq_handler_debounce_witness:
  "irq_wf (irq_boot\<lparr>callbacks := (callbacks irq_boot)[5 := Some Btn_a_callback]\<rparr>) \<and>
   unat (5 :: 32 word) < MAX_GPIO_PINS \<and>
   200000 < absolute_time_diff_us 0 300000 \<and>
   absolute_time_diff_us 300000 400000 \<le> 200000 \<and>
   (\<exists>s1 s2.
      gpio_irq_handler 300000 5 4
        (irq_boot\<lparr>callbacks := (callbacks irq_boot)[5 := Some Btn_a_callback]\<rparr>) = Inr s1 \<and>
      gpio_irq_handler 400000 5 4 s1 = Inr s2 \<and>
      invoked s2 = [Btn_a_callback] \<and>
      last_interrupt_time s2 ! 5 = 300000)"
proof -
  let ?s = "irq_boot\<lparr>callbacks := (callbacks irq_boot)[5 := Some Btn_a_callback]\<rparr>
              :: button_callback irq_state"
  have wf: "irq_wf ?s"
    by (simp add: irq_wf_def irq_boot_def)
  have p: "unat (5 :: 32 word) < MAX_GPIO_PINS"
    by (simp add: MAX_GPIO_PINS_def)
  have cb: "callbacks ?s ! unat (5 :: 32 word) = Some Btn_a_callback"
    by (simp add: irq_boot_def MAX_GPIO_PINS_def)
  have last0: "last_interrupt_time ?s ! unat (5 :: 32 word) = 0"
    by (simp add: irq_boot_def MAX_GPIO_PINS_def)
  have d1: "200000 < absolute_time_diff_us 0 300000"
    by (simp add: absolute_time_diff_us_def)
  have d2: "absolute_time_diff_us 300000 400000 \<le> 200000"
    by (simp add: absolute_time_diff_us_def)
  have inv0: "invoked ?s = []" and u5: "unat (5 :: 32 word) = 5"
    by (simp_all add: irq_boot_def)
  note T = gpio_irq_handler_debounce [OF wf p cb, of 300000 4 400000 4, unfolded last0]
  from T d1 d2 obtain s1 s2 where
    "gpio_irq_handler 300000 5 4 ?s = Inr s1" "gpio_irq_handler 400000 5 4 s1 = Inr s2"
    "invoked s2 = invoked ?s @ [Btn_a_callback]"
    "last_interrupt_time s2 ! unat (5 :: 32 word) = 300000"
    by blast
  then have "\<exists>s1 s2. gpio_irq_handler 300000 5 4 ?s = Inr s1 \<and>
      gpio_irq_handler 400000 5 4 s1 = Inr s2 \<and> invoked s2 = [Btn_a_callback] \<and>
      last_interrupt_time s2 ! 5 = 300000"
    unfolding inv0 u5 by auto
  with wf p d1 d2 show ?thesis
    by blast
qed

text \<open>
  C3. For a pin index of 30 or more, registering, removing and dispatching return the
  state they were given: neither table is read or written, no interrupt is enabled or
  disabled, no callback is called, and no access falls outside the tables.
\<close>

theorem out_of_range_pin_is_noop:
  assumes "MAX_GPIO_PINS \<le> unat p"
  shows "register_gpio_callback p cb m s = Inr s \<and>
         remove_gpio_callback p m s = Inr s \<and>
         gpio_irq_handler t p ev s = Inr s"
  using assms
  by (simp add: register_gpio_callback_def remove_gpio_callback_def gpio_irq_handler_def)

theorem out_of_range_pin_is_noop_witness:
  "MAX_GPIO_PINS \<le> unat (30 :: 32 word) \<and>
   register_gpio_callback 30 (Some Btn_a_callback) 4 irq_boot = Inr irq_boot \<and>
   remove_gpio_callback 30 4 (irq_boot :: button_callback irq_state) = Inr irq_boot \<and>
   gpio_irq_handler 300000 30 4 (irq_boot :: button_callback irq_state) = Inr irq_boot"
proof -
  have h: "MAX_GPIO_PINS \<le> unat (30 :: 32 word)"
    by (simp add: MAX_GPIO_PINS_def)
  show ?thesis
    using h out_of_range_pin_is_noop [OF h] by simp
qed

text \<open>On the 30-entry tables no pin index makes any of the three functions fault.\<close>

lemma in_range_pin_no_fault:
  assumes "irq_wf s"
  shows "(\<exists>s'. register_gpio_callback p cb m s = Inr s' \<and> irq_wf s') \<and>
         (\<exists>s'. remove_gpio_callback p m s = Inr s' \<and> irq_wf s') \<and>
         (\<exists>s'. gpio_irq_handler t p ev s = Inr s' \<and> irq_wf s')"
  using assms
  by (auto simp add: register_gpio_callback_def remove_gpio_callback_def gpio_irq_handler_def
      array_read_def array_write_def irq_wf_def split: option.splits)


section \<open>Properties of the range mapping\<close>

lemma sdiv_mult_self:
  fixes d b :: int
  assumes "d \<noteq> 0"
  shows "(d * b) sdiv d = b"
proof -
  have "\<bar>d * b\<bar> div \<bar>d\<bar> = \<bar>b\<bar>"
    using assms by (simp add: abs_mult)
  moreover have "sgn d * sgn d = 1"
    using assms by (simp add: sgn_if)
  then have "sgn (d * b) * sgn d = sgn b"
    by (simp add: sgn_mult mult.assoc mult.left_commute)
  ultimately show ?thesis
    by (simp add: signed_divide_int_def mult_sgn_abs)
qed

lemma int32_range_sint16: "int32_range (sint (w :: 16 word))"
proof -
  have "- (2 ^ 15) \<le> sint w" "sint w < 2 ^ 15"
    using sint_range_size [of w] by (simp_all add: word_size)
  then show ?thesis
    by (simp add: int32_range_def)
qed

lemma abs_sdiv_le: "\<bar>(k :: int) sdiv l\<bar> \<le> \<bar>k\<bar>"
proof -
  define q where "q = \<bar>k\<bar> div \<bar>l\<bar>"
  have le: "q \<le> \<bar>k\<bar>"
    unfolding q_def using int_div_le_self [of "\<bar>k\<bar>" "\<bar>l\<bar>"] by (cases "k = 0") simp_all
  have nonneg: "0 \<le> q"
    unfolding q_def by (cases "l = 0") (simp_all add: pos_imp_zdiv_nonneg_iff)
  have "\<bar>k sdiv l\<bar> = \<bar>sgn k\<bar> * \<bar>sgn l\<bar> * q"
    using nonneg by (simp add: signed_divide_int_def abs_mult q_def)
  also have "\<dots> \<le> q"
    using nonneg by (simp add: abs_sgn_eq)
  finally show ?thesis
    using le by simp
qed

lemma product_fits:
  fixes a b :: int
  assumes "\<bar>a\<bar> \<le> 32767" and "\<bar>b\<bar> \<le> 65535"
  shows "\<bar>a * b\<bar> \<le> 2147385345"
proof -
  have "\<bar>a\<bar> * \<bar>b\<bar> \<le> 32767 * 65535"
    using assms by (intro mult_mono) simp_all
  then show ?thesis
    by (simp add: abs_mult)
qed

text \<open>
  C8, as it holds. For \<open>min_input \<noteq> max_input\<close>: when the 32-bit product
  \<open>(value - min_input) * (max_output - min_output)\<close> and the sum with \<open>min_output\<close> do not
  overflow, which is so whenever \<open>value\<close> and \<open>min_input\<close> are at most 32767, the
  result is the low 16 bits of
  \<open>min_output + (value - min_input) * (max_output - min_output) / (max_input - min_input)\<close>
  with truncating division, and that value itself when it lies between -32768 and 32767;
  at \<open>value = min_input\<close> the result is \<open>min_output\<close>; at \<open>value = max_input\<close> it is
  \<open>max_output\<close> when the product \<open>(max_input - min_input) * (max_output - min_output)\<close> fits
  in a signed 32-bit integer.
\<close>

theorem joystickPi_map_value_linear:
  assumes "min_input \<noteq> max_input"
  shows "(int32_range ((uint v - uint min_input) * (sint max_output - sint min_output)) \<and>
          int32_range (((uint v - uint min_input) * (sint max_output - sint min_output))
                         sdiv (uint max_input - uint min_input) + sint min_output) \<longrightarrow>
            joystickPi_map_value v min_input max_input min_output max_output =
              Inr (word_of_int
                     (((uint v - uint min_input) * (sint max_output - sint min_output))
                        sdiv (uint max_input - uint min_input) + sint min_output)))
       \<and> (uint v \<le> 32767 \<and> uint min_input \<le> 32767 \<longrightarrow>
            joystickPi_map_value v min_input max_input min_output max_output =
              Inr (word_of_int
                     (((uint v - uint min_input) * (sint max_output - sint min_output))
                        sdiv (uint max_input - uint min_input) + sint min_output)))
       \<and> (int32_range ((uint v - uint min_input) * (sint max_output - sint min_output)) \<and>
          - 32768 \<le> ((uint v - uint min_input) * (sint max_output - sint min_output))
                         sdiv (uint max_input - uint min_input) + sint min_output \<and>
          ((uint v - uint min_input) * (sint max_output - sint min_output))
                         sdiv (uint max_input - uint min_input) + sint min_output \<le> 32767 \<longrightarrow>
            (\<exists>r. joystickPi_map_value v min_input max_input min_output max_output = Inr r \<and>
                 sint r = ((uint v - uint min_input) * (sint max_output - sint min_output))
                            sdiv (uint max_input - uint min_input) + sint min_output))
       \<and> joystickPi_map_value min_input min_input max_input min_output max_output =
            Inr min_output
       \<and> (int32_range ((uint max_input - uint min_input) *
                         (sint max_output - sint min_output)) \<longrightarrow>
            joystickPi_map_value max_input min_input max_input min_output max_output =
              Inr max_output)"
proof -
  define P where "P = (uint v - uint min_input) * (sint max_output - sint min_output)"
  define R where "R = P sdiv (uint max_input - uint min_input) + sint min_output"
  have d: "uint max_input - uint min_input \<noteq> 0"
    using assms by (simp add: word_uint_eq_iff)
  have s16: "- 32768 \<le> sint w \<and> sint w \<le> 32767" for w :: "16 word"
    using int32_range_sint16 [of w] sint_range_size [of w] by (simp add: word_size)
  have general: "joystickPi_map_value v min_input max_input min_output max_output =
                   Inr (word_of_int R)" if "int32_range P" "int32_range R"
    using that d unfolding P_def R_def by (simp add: joystickPi_map_value_def Let_def)
  have small: "int32_range P \<and> int32_range R"
    if "uint v \<le> 32767" "uint min_input \<le> 32767"
  proof -
    have "\<bar>uint v - uint min_input\<bar> \<le> 32767"
      using that uint_ge_0 [of v] uint_ge_0 [of min_input] by linarith
    moreover have "\<bar>sint max_output - sint min_output\<bar> \<le> 65535"
      using s16 [of max_output] s16 [of min_output] by linarith
    ultimately have p: "\<bar>P\<bar> \<le> 2147385345"
      unfolding P_def by (rule product_fits)
    have "\<bar>P sdiv (uint max_input - uint min_input)\<bar> \<le> \<bar>P\<bar>"
      by (rule abs_sdiv_le)
    with p have "\<bar>R\<bar> \<le> 2147418113"
      unfolding R_def using s16 [of min_output] by linarith
    with p show ?thesis
      by (simp add: int32_range_def) linarith
  qed
  have fits: "\<exists>r. joystickPi_map_value v min_input max_input min_output max_output = Inr r \<and>
                  sint r = R" if "int32_range P" "- 32768 \<le> R" "R \<le> 32767"
  proof -
    have "int32_range R"
      using that by (simp add: int32_range_def)
    moreover have "sint (word_of_int R :: 16 word) = R"
      using that by (simp only: sint_sbintrunc' signed_take_bit_int_eq_self_iff) simp
    ultimately show ?thesis
      using general that by blast
  qed
  have low: "joystickPi_map_value min_input min_input max_input min_output max_output =
               Inr min_output"
    using d int32_range_sint16 [of min_output]
    by (simp add: joystickPi_map_value_def Let_def int32_range_def)
  have high: "joystickPi_map_value max_input min_input max_input min_output max_output =
                Inr max_output"
    if "int32_range ((uint max_input - uint min_input) * (sint max_output - sint min_output))"
    using that d int32_range_sint16 [of max_output]
    by (simp add: joystickPi_map_value_def Let_def sdiv_mult_self)
  show ?thesis
    using general small fits low high unfolding P_def R_def by blast
qed

theorem joystickPi_map_value_linear_witness:
  "(0 :: 16 word) \<noteq> 4095 \<and>
   uint (1024 :: 16 word) \<le> 32767 \<and> uint (0 :: 16 word) \<le> 32767 \<and>
   int32_range ((uint (1024 :: 16 word) - uint (0 :: 16 word)) *
                (sint (100 :: 16 word) - sint (- 100 :: 16 word))) \<and>
   int32_range ((uint (4095 :: 16 word) - uint (0 :: 16 word)) *
                (sint (100 :: 16 word) - sint (- 100 :: 16 word))) \<and>
   joystickPi_map_value 1024 0 4095 (- 100) 100 = Inr (- 50) \<and>
   joystickPi_map_value 0 0 4095 (- 100) 100 = Inr (- 100) \<and>
   joystickPi_map_value 4095 0 4095 (- 100) 100 = Inr 100"
proof -
  have h: "(0 :: 16 word) \<noteq> 4095"
    by simp
  have s: "uint (1024 :: 16 word) \<le> 32767 \<and> uint (0 :: 16 word) \<le> 32767"
    by simp
  have p: "int32_range ((uint (1024 :: 16 word) - uint (0 :: 16 word)) *
                (sint (100 :: 16 word) - sint (- 100 :: 16 word)))"
    by (simp add: int32_range_def)
  have q: "int32_range ((uint (4095 :: 16 word) - uint (0 :: 16 word)) *
                (sint (100 :: 16 word) - sint (- 100 :: 16 word)))"
    by (simp add: int32_range_def)
  have v: "((uint (1024 :: 16 word) - uint (0 :: 16 word)) *
                (sint (100 :: 16 word) - sint (- 100 :: 16 word))) sdiv
             (uint (4095 :: 16 word) - uint (0 :: 16 word)) + sint (- 100 :: 16 word) = - 50"
    by (simp add: signed_divide_int_def)
  note T = joystickPi_map_value_linear [OF h, of 1024 100 "- 100"]
  have "joystickPi_map_value 1024 0 4095 (- 100) 100 = Inr (word_of_int (- 50))"
    using T s unfolding v by blast
  then have a: "joystickPi_map_value 1024 0 4095 (- 100) 100 = Inr (- 50)"
    by simp
  have b: "joystickPi_map_value 0 0 4095 (- 100) 100 = Inr (- 100)"
    using T by blast
  have c: "joystickPi_map_value 4095 0 4095 (- 100) 100 = Inr 100"
    using T q by blast
  show ?thesis
    using h s p q a b c by blast
qed

text \<open>
  C8 as stated fails: mapping 50000 from 0..50000 to -32768..32767 overflows the 32-bit
  product instead of giving 32767, and mapping 65535 from 0..1 to 0..32767 gives -32767,
  the low 16 bits of 2147385345.
\<close>

theorem joystickPi_map_value_counterexample:
  "(0 :: 16 word) \<noteq> 50000 \<and>
   joystickPi_map_value 50000 0 50000 (- 32768) 32767 = Inl SignedOverflow \<and>
   (0 :: 16 word) \<noteq> 1 \<and>
   joystickPi_map_value 65535 0 1 0 32767 = Inr (- 32767) \<and>
   (0 + (65535 - 0) * (32767 - 0) sdiv (1 - 0) :: int) = 2147385345"
  by (simp add: joystickPi_map_value_def int32_range_def signed_divide_int_def)

section \<open>Properties of the input handling\<close>

text \<open>
  C7. When the button-B flag is set, consuming it inverts \<open>is_playing\<close>, sets
  \<open>current_note\<close> to 0 and clears the flag, whichever way the toggle goes. In
  \<open>handle_input\<close> the inversion is of the value left by the button-A block, which is the
  value at entry when the button-A flag is not set.
\<close>

theorem handle_input_button_b:
  assumes "b_pressed (buttons s)"
  shows "is_playing (player (handle_button_b s)) = (\<not> is_playing (player s)) \<and>
         current_note (player (handle_button_b s)) = 0 \<and>
         \<not> b_pressed (buttons (handle_button_b s)) \<and>
         is_playing (player (handle_input M s)) =
           (\<not> is_playing (player (handle_button_a M s))) \<and>
         current_note (player (handle_input M s)) = 0 \<and>
         \<not> b_pressed (buttons (handle_input M s)) \<and>
         (\<not> a_pressed (buttons s) \<longrightarrow>
            is_playing (player (handle_input M s)) = (\<not> is_playing (player s)))"
  using assms by (simp add: handle_input_def handle_button_b_def handle_button_a_def)


theorem handle_input_button_b_witness:
  "b_pressed (buttons ((genius_boot 0)\<lparr>buttons := buttons_boot\<lparr>b_pressed := True\<rparr>\<rparr>)) \<and>
   \<not> is_playing (player ((genius_boot 0)\<lparr>buttons := buttons_boot\<lparr>b_pressed := True\<rparr>\<rparr>)) \<and>
   is_playing (player (handle_input catalogue
      ((genius_boot 0)\<lparr>buttons := buttons_boot\<lparr>b_pressed := True\<rparr>\<rparr>))) \<and>
   current_note (player (handle_input catalogue
      ((genius_boot 0)\<lparr>buttons := buttons_boot\<lparr>b_pressed := True\<rparr>\<rparr>))) = 0 \<and>
   b_pressed (buttons ((genius_boot 0)
      \<lparr>buttons := buttons_boot\<lparr>b_pressed := True\<rparr>,
       player := player_boot\<lparr>is_playing := True, current_note := 5\<rparr>\<rparr>)) \<and>
   is_playing (player ((genius_boot 0)
      \<lparr>buttons := buttons_boot\<lparr>b_pressed := True\<rparr>,
       player := player_boot\<lparr>is_playing := True, current_note := 5\<rparr>\<rparr>)) \<and>
   \<not> is_playing (player (handle_input catalogue ((genius_boot 0)
      \<lparr>buttons := buttons_boot\<lparr>b_pressed := True\<rparr>,
       player := player_boot\<lparr>is_playing := True, current_note := 5\<rparr>\<rparr>))) \<and>
   current_note (player (handle_input catalogue ((genius_boot 0)
      \<lparr>buttons := buttons_boot\<lparr>b_pressed := True\<rparr>,
       player := player_boot\<lparr>is_playing := True, current_note := 5\<rparr>\<rparr>))) = 0"
proof -
  let ?s = "(genius_boot 0)\<lparr>buttons := buttons_boot\<lparr>b_pressed := True\<rparr>\<rparr>"
  let ?t = "(genius_boot 0)
      \<lparr>buttons := buttons_boot\<lparr>b_pressed := True\<rparr>,
       player := player_boot\<lparr>is_playing := True, current_note := 5\<rparr>\<rparr>"
  have b: "b_pressed (buttons ?s)" and b': "b_pressed (buttons ?t)"
    by simp_all
  have a: "\<not> a_pressed (buttons ?s)" and a': "\<not> a_pressed (buttons ?t)"
    by (simp_all add: buttons_boot_def)
  have p: "\<not> is_playing (player ?s)" and p': "is_playing (player ?t)"
    by (simp_all add: genius_boot_def player_boot_def)
  have "is_playing (player (handle_input catalogue ?s)) \<and>
        current_note (player (handle_input catalogue ?s)) = 0"
    using handle_input_button_b [OF b, of catalogue] a p by blast
  moreover have "\<not> is_playing (player (handle_input catalogue ?t)) \<and>
        current_note (player (handle_input catalogue ?t)) = 0"
    using handle_input_button_b [OF b', of catalogue] a' p' by blast
  ultimately show ?thesis
    using b b' p p' by blast
qed

text \<open>
  C2, as it holds. When the button-A flag is set, consuming it sets the selection to
  \<open>(selection + 1) mod catalog_length\<close> (unsigned), sets \<open>is_playing\<close> to false, clears
  the flag and leaves \<open>current_note\<close> as it was; after \<open>handle_input\<close> the player is
  paused with \<open>current_note\<close> unchanged unless the button-B flag was set as well.
\<close>

theorem handle_input_button_a:
  assumes "a_pressed (buttons s)"
  shows "index (buttons (handle_button_a M s)) =
           (index (buttons s) + 1) mod word_of_nat (length M) \<and>
         \<not> is_playing (player (handle_button_a M s)) \<and>
         current_note (player (handle_button_a M s)) = current_note (player s) \<and>
         \<not> a_pressed (buttons (handle_button_a M s)) \<and>
         index (buttons (handle_input M s)) =
           (index (buttons s) + 1) mod word_of_nat (length M) \<and>
         (\<not> b_pressed (buttons s) \<longrightarrow>
            \<not> is_playing (player (handle_input M s)) \<and>
            current_note (player (handle_input M s)) = current_note (player s)) \<and>
         (unat (index (buttons s)) < length M \<and> length M < 2 ^ 32 \<longrightarrow>
            unat (index (buttons (handle_input M s))) =
              (unat (index (buttons s)) + 1) mod length M)"
proof -
  have "unat ((index (buttons s) + 1) mod word_of_nat (length M)) =
          (unat (index (buttons s)) + 1) mod length M"
    if "unat (index (buttons s)) < length M" "length M < 2 ^ 32"
  proof -
    have "unat (index (buttons s)) + 1 < 2 ^ 32"
      using that by simp
    then have "unat (index (buttons s) + 1) = unat (index (buttons s)) + 1"
      by (simp add: unat_add_lem [THEN iffD1])
    moreover have "unat (word_of_nat (length M) :: 32 word) = length M"
      using that by (simp add: unat_of_nat)
    ultimately show ?thesis
      by (simp add: unat_mod)
  qed
  then show ?thesis
    using assms by (simp add: handle_input_def handle_button_b_def handle_button_a_def)
qed

theorem handle_input_button_a_witness:
  "a_pressed (buttons ((genius_boot 0)
      \<lparr>buttons := buttons_boot\<lparr>a_pressed := True, index := 2\<rparr>,
       player := player_boot\<lparr>is_playing := True, current_note := 5\<rparr>\<rparr>)) \<and>
   index (buttons (handle_input catalogue ((genius_boot 0)
      \<lparr>buttons := buttons_boot\<lparr>a_pressed := True, index := 2\<rparr>,
       player := player_boot\<lparr>is_playing := True, current_note := 5\<rparr>\<rparr>))) = 0 \<and>
   \<not> is_playing (player (handle_input catalogue ((genius_boot 0)
      \<lparr>buttons := buttons_boot\<lparr>a_pressed := True, index := 2\<rparr>,
       player := player_boot\<lparr>is_playing := True, current_note := 5\<rparr>\<rparr>))) \<and>
   current_note (player (handle_input catalogue ((genius_boot 0)
      \<lparr>buttons := buttons_boot\<lparr>a_pressed := True, index := 2\<rparr>,
       player := player_boot\<lparr>is_playing := True, current_note := 5\<rparr>\<rparr>))) = 5"
proof -
  let ?s = "(genius_boot 0)
      \<lparr>buttons := buttons_boot\<lparr>a_pressed := True, index := 2\<rparr>,
       player := player_boot\<lparr>is_playing := True, current_note := 5\<rparr>\<rparr>"
  have a: "a_pressed (buttons ?s)"
    by simp
  have b: "\<not> b_pressed (buttons ?s)" and i: "index (buttons ?s) = 2"
    and c: "current_note (player ?s) = 5"
    by (simp_all add: buttons_boot_def)
  have n: "word_of_nat (length catalogue) = (3 :: 32 word)"
    by (simp add: catalogue_def)
  show ?thesis
    using handle_input_button_a [OF a, of catalogue] a b
    unfolding i c n by simp
qed

text \<open>
  C2 as stated fails: with the button-A flag set and \<open>current_note\<close> at 5,
  \<open>handle_input\<close> leaves \<open>current_note\<close> at 5.
\<close>

theorem handle_input_button_a_counterexample:
  "a_pressed (buttons ((genius_boot 0)
      \<lparr>buttons := buttons_boot\<lparr>a_pressed := True\<rparr>,
       player := player_boot\<lparr>is_playing := True, current_note := 5\<rparr>\<rparr>)) \<and>
   current_note (player (handle_input catalogue ((genius_boot 0)
      \<lparr>buttons := buttons_boot\<lparr>a_pressed := True\<rparr>,
       player := player_boot\<lparr>is_playing := True, current_note := 5\<rparr>\<rparr>))) = 5 \<and>
   (5 :: 32 word) \<noteq> 0"
  by (simp add: handle_input_def handle_button_a_def handle_button_b_def buttons_boot_def
      player_boot_def)

section \<open>Properties of the buzzer\<close>

text \<open>
  When the product \<open>target_frequency * clkdiv\<close> exceeds the clock frequency (both as
  \<open>float\<close>), the quotient is at most 1, the difference lies between -1 and 0, and the
  wrap is 0. With the default divisor and a clock of 32 kHz or more the conversion to
  \<open>uint32_t\<close> is defined for every frequency but 0.
\<close>

lemma wrap_is_zero_above_clock:
  assumes "f32_of_int (uint clock_freq) = Fin c"
    and "f32_mul (f32_of_int (uint target_frequency)) clkdiv = Fin p"
    and "c < p"
    and "wrap_u32 clock_freq target_frequency clkdiv = Inr w"
  shows "w = 0"
proof -
  have "0 \<le> uint clock_freq" "uint clock_freq < 2 ^ 32"
    using uint_lt2p [of clock_freq] by simp_all
  from f32_of_int_nonneg [OF this] have c: "0 \<le> c"
    using assms(1) by simp
  with assms(3) have p: "0 < p"
    by simp
  have "0 \<le> c / p" "c / p \<le> 1"
    using c p assms(3) by simp_all
  from f32_round_unit [OF this] obtain q where
    q: "f32_round (c / p) = Fin q" "0 \<le> q" "q \<le> 1"
    by blast
  have "0 \<le> 1 - q" "1 - q \<le> 1"
    using q by simp_all
  from f32_round_unit [OF this] obtain z where
    z: "f32_round (1 - q) = Fin z" "0 \<le> z" "z \<le> 1"
    by blast
  have "f32_round (q + - 1) = f32_neg (f32_round (1 - q))"
    using f32_round_minus [of "1 - q"] by simp
  then have d: "f32_sub (f32_div (Fin c) (Fin p)) (f32_of_int 1) = Fin (- z)"
    using p q z by (simp add: f32_sub_def f32_of_int_one)
  have "f32_to_uint32 (Fin (- z)) = Inr w"
    using assms(1,2,4) d by (simp add: wrap_u32_def)
  then have t: "0 \<le> c_trunc (- z)" and w: "w = word_of_int (c_trunc (- z))"
    by (simp_all add: f32_to_uint32_def split: if_splits)
  have "c_trunc (- z) \<le> 0"
    using z by (simp add: c_trunc_def ceiling_le_iff)
  with t w show ?thesis
    by simp
qed

lemma calculate_wrap_default_defined:
  assumes "target_frequency \<noteq> 0" and "32000 \<le> uint clock_freq"
  shows "\<exists>r. calculate_wrap clock_freq target_frequency CLK_DIV_DEFAULT = Inr r"
proof -
  have "uint target_frequency \<noteq> 0"
    using assms by (simp add: word_uint_eq_iff)
  then have "1 \<le> uint target_frequency"
    using uint_ge_0 [of target_frequency] by linarith
  moreover have "uint target_frequency \<le> 2 ^ 32"
    using uint_lt2p [of target_frequency] by simp
  ultimately have "of_int 1 * 2 powi 0 \<le> (of_int (uint target_frequency) :: rat)"
    and "(of_int (uint target_frequency) :: rat) \<le> of_int 1 * 2 powi 32"
    using rat_of_int_bounds [of 1 "uint target_frequency" "2 ^ 32"] by simp_all
  from f32_round_between [OF this(1) _ _ _ this(2)] obtain a where
    a: "f32_of_int (uint target_frequency) = Fin a" "1 \<le> a" "a \<le> 2 ^ 32"
    by (auto simp add: f32_of_int_def)
  have "of_int 1 * 2 powi 6 \<le> a * 125" and "a * 125 \<le> of_int 125 * 2 powi 32"
    using a by simp_all
  from f32_round_between [OF this(1) _ _ _ this(2)] obtain p where
    p: "f32_round (a * 125) = Fin p" "64 \<le> p" "p \<le> 125 * 2 ^ 32"
    by auto
  have "uint clock_freq \<le> 2 ^ 32"
    using uint_lt2p [of clock_freq] by simp
  then have "of_int 125 * 2 powi 8 \<le> (of_int (uint clock_freq) :: rat)"
    and "(of_int (uint clock_freq) :: rat) \<le> of_int 1 * 2 powi 32"
    using rat_of_int_bounds [of 32000 "uint clock_freq" "2 ^ 32"] assms(2) by simp_all
  from f32_round_between [OF this(1) _ _ _ this(2)] obtain c where
    c: "f32_of_int (uint clock_freq) = Fin c" "32000 \<le> c" "c \<le> 2 ^ 32"
    by (auto simp add: f32_of_int_def)
  have p0: "0 < p" and c0: "0 \<le> c"
    using p c by simp_all
  have "32000 / (125 * 2 ^ 32) \<le> c / (125 * 2 ^ 32)"
    using c by (intro divide_right_mono) simp_all
  moreover have "c / (125 * 2 ^ 32) \<le> c / p"
    using p p0 c0 by (intro divide_left_mono) simp_all
  moreover have "c / p \<le> c / 64"
    using p p0 c0 by (intro divide_left_mono) simp_all
  moreover have "c / 64 \<le> 2 ^ 32 / 64"
    using c by (intro divide_right_mono) simp_all
  moreover have "of_int 1 * 2 powi (- 24) \<le> (32000 :: rat) / (125 * 2 ^ 32)"
    and "(2 :: rat) ^ 32 / 64 \<le> of_int 1 * 2 powi 26"
    by simp_all
  ultimately have "of_int 1 * 2 powi (- 24) \<le> c / p" and "c / p \<le> of_int 1 * 2 powi 26"
    by linarith+
  from f32_round_between [OF this(1) _ _ _ this(2)] obtain q where
    q: "f32_round (c / p) = Fin q" "1 / 2 ^ 24 \<le> q" "q \<le> 2 ^ 26"
    by auto
  have "\<exists>z. f32_round (q + - 1) = Fin z \<and> - 1 < z \<and> z \<le> 2 ^ 26"
  proof (cases "q = 1")
    case True
    then show ?thesis
      by (simp add: f32_round_def)
  next
    case False
    show ?thesis
    proof (cases "1 < q")
      case True
      then have "0 < q + - 1" and "q + - 1 \<le> of_int 1 * 2 powi 26"
        using q by simp_all
      from f32_round_le [OF this] show ?thesis
        by auto
    next
      case False
      with \<open>q \<noteq> 1\<close> have "0 < 1 - q" and "1 - q \<le> of_int (2 ^ 24 - 1) * 2 powi (- 24)"
        using q by simp_all
      from f32_round_le [OF this] obtain y where
        y: "f32_round (1 - q) = Fin y" "0 \<le> y" "y \<le> (2 ^ 24 - 1) / 2 ^ 24"
        by auto
      have "f32_round (q + - 1) = f32_neg (f32_round (1 - q))"
        using f32_round_minus [of "1 - q"] by simp
      with y show ?thesis
        by simp
    qed
  qed
  then obtain z where z: "f32_round (q + - 1) = Fin z" "- 1 < z" "z \<le> 2 ^ 26"
    by blast
  have "0 \<le> c_trunc z" "c_trunc z < 2 ^ 32"
    using z by (simp_all add: c_trunc_def le_ceiling_iff floor_less_iff)
  moreover have "f32_sub (f32_div (f32_of_int (uint clock_freq))
                   (f32_mul (f32_of_int (uint target_frequency)) CLK_DIV_DEFAULT))
                   (f32_of_int 1) = Fin z"
    using a p q z c by (simp add: CLK_DIV_DEFAULT_def f32_sub_def f32_of_int_one)
  ultimately show ?thesis
    by (simp add: calculate_wrap_def wrap_u32_def f32_to_uint32_def)
qed

text \<open>What \<open>play_tone\<close> does to the board when \<open>calculate_wrap\<close> returns \<open>w\<close>.\<close>

lemma play_tone_result:
  assumes "calculate_wrap (clk_sys_hz h) freq CLK_DIV_DEFAULT = Inr w"
  shows "play_tone pin freq duration_ms h =
           Inr (h\<lparr>now := now h + 1000 * ucast duration_ms,
                  trace := trace h @ tone_events pin freq duration_ms w\<rparr>)"
  using assms
  by (simp add: play_tone_def Let_def pwm_set_gpio_level_def sleep_ms_def emit_def
      tone_events_def)

text \<open>
  C10, as it holds. Whenever \<open>calculate_wrap\<close> returns, the value returned is the local
  \<open>wrap\<close> when that is at most 65535 and 65535 when it is more, so it is at most 65535
  and the conversion to \<open>uint16_t\<close> loses nothing. The quotient and the subtraction are
  computed in \<open>float\<close>: when \<open>target_frequency * clkdiv\<close> exceeds the clock frequency the
  value returned is 0, and nothing wraps around. \<open>play_tone\<close>, which uses
  \<open>CLK_DIV_DEFAULT\<close>, programs exactly the value returned as the PWM wrap. With that
  divisor and a clock of 32 kHz or more, \<open>calculate_wrap\<close> returns for every frequency
  but 0.
\<close>

theorem calculate_wrap_clamped:
  "(\<forall>r. calculate_wrap clock_freq target_frequency clkdiv = Inr r \<longrightarrow>
      unat r \<le> 65535 \<and>
      (\<exists>wrap. wrap_u32 clock_freq target_frequency clkdiv = Inr wrap \<and>
              unat r = min (unat wrap) 65535) \<and>
      (\<forall>c p. f32_of_int (uint clock_freq) = Fin c \<and>
             f32_mul (f32_of_int (uint target_frequency)) clkdiv = Fin p \<and> c < p \<longrightarrow>
               r = 0) \<and>
      (\<forall>pin duration_ms h h'.
         clk_sys_hz h = clock_freq \<and> clkdiv = CLK_DIV_DEFAULT \<and>
         play_tone pin target_frequency duration_ms h = Inr h' \<longrightarrow>
           trace h' = trace h @ tone_events pin target_frequency duration_ms r))
   \<and> (target_frequency \<noteq> 0 \<and> 32000 \<le> uint clock_freq \<longrightarrow>
        (\<exists>r. calculate_wrap clock_freq target_frequency CLK_DIV_DEFAULT = Inr r))"
proof (intro conjI allI impI)
  fix r
  assume ret: "calculate_wrap clock_freq target_frequency clkdiv = Inr r"
  then obtain wrap where w: "wrap_u32 clock_freq target_frequency clkdiv = Inr wrap"
    and r: "r = ucast (if 65535 < wrap then 65535 else wrap)"
    by (auto simp add: calculate_wrap_def split: sum.splits)
  have m: "unat r = min (unat wrap) 65535"
  proof (cases "65535 < wrap")
    case True
    then have "65535 < unat wrap"
      by (simp add: word_less_nat_alt)
    with True r show ?thesis
      by simp
  next
    case False
    then have le: "unat wrap \<le> 65535"
      by (simp add: word_less_nat_alt)
    then have "unat (ucast wrap :: 16 word) = unat wrap"
      by (simp add: unsigned_ucast_eq take_bit_nat_eq_self)
    with False le r show ?thesis
      by simp
  qed
  then show "unat r \<le> 65535"
    by simp
  from w m show "\<exists>wrap. wrap_u32 clock_freq target_frequency clkdiv = Inr wrap \<and>
                        unat r = min (unat wrap) 65535"
    by blast
  {
    fix c p
    assume "f32_of_int (uint clock_freq) = Fin c \<and>
            f32_mul (f32_of_int (uint target_frequency)) clkdiv = Fin p \<and> c < p"
    then have "wrap = 0"
      using w by (blast intro: wrap_is_zero_above_clock)
    with r show "r = 0"
      by simp
  }
  {
    fix pin duration_ms h h'
    assume "clk_sys_hz h = clock_freq \<and> clkdiv = CLK_DIV_DEFAULT \<and>
            play_tone pin target_frequency duration_ms h = Inr h'"
    then show "trace h' = trace h @ tone_events pin target_frequency duration_ms r"
      using ret play_tone_result [of h target_frequency r pin duration_ms] by auto
  }
next
  assume "target_frequency \<noteq> 0 \<and> 32000 \<le> uint clock_freq"
  then show "\<exists>r. calculate_wrap clock_freq target_frequency CLK_DIV_DEFAULT = Inr r"
    by (simp add: calculate_wrap_default_defined)
qed

text \<open>Values of the wrap at 125 MHz with the default divisor, computed.\<close>

lemma wrap_440: "calculate_wrap 125000000 440 CLK_DIV_DEFAULT = Inr 2271"
  by code_simp

lemma wrap_u32_1: "wrap_u32 125000000 1 CLK_DIV_DEFAULT = Inr 999999"
  by code_simp

lemma wrap_1: "calculate_wrap 125000000 1 CLK_DIV_DEFAULT = Inr 65535"
  by code_simp

lemma wrap_u32_2000000: "wrap_u32 125000000 2000000 CLK_DIV_DEFAULT = Inr 0"
  by code_simp

lemma wrap_2000000: "calculate_wrap 125000000 2000000 CLK_DIV_DEFAULT = Inr 0"
  by code_simp

lemma clock_as_float: "f32_of_int (uint (125000000 :: 32 word)) = Fin 125000000"
  by code_simp

lemma product_as_float:
  "f32_mul (f32_of_int (uint (2000000 :: 32 word))) CLK_DIV_DEFAULT = Fin 250000000"
  by code_simp

theorem calculate_wrap_clamped_witness:
  "calculate_wrap 125000000 1 CLK_DIV_DEFAULT = Inr 65535 \<and>
   wrap_u32 125000000 1 CLK_DIV_DEFAULT = Inr 999999 \<and>
   unat (65535 :: 16 word) = min (unat (999999 :: 32 word)) 65535 \<and>
   calculate_wrap 125000000 2000000 CLK_DIV_DEFAULT = Inr 0 \<and>
   f32_of_int (uint (125000000 :: 32 word)) = Fin 125000000 \<and>
   f32_mul (f32_of_int (uint (2000000 :: 32 word))) CLK_DIV_DEFAULT = Fin 250000000 \<and>
   (125000000 :: rat) < 250000000 \<and>
   clk_sys_hz (board_reading 2048) = 125000000 \<and>
   (\<exists>h'. play_tone BUZZER_PIN 2000000 200 (board_reading 2048) = Inr h' \<and>
         trace h' = tone_events BUZZER_PIN 2000000 200 0) \<and>
   (2000000 :: 32 word) \<noteq> 0 \<and> 32000 \<le> uint (125000000 :: 32 word) \<and>
   (\<exists>r. calculate_wrap 125000000 2000000 CLK_DIV_DEFAULT = Inr r)"
proof -
  note T1 = calculate_wrap_clamped [of 125000000 1 CLK_DIV_DEFAULT]
  note T2 = calculate_wrap_clamped [of 125000000 2000000 CLK_DIV_DEFAULT]
  have k: "clk_sys_hz (board_reading 2048) = 125000000"
    and e: "trace (board_reading 2048) = []"
    by (simp_all add: board_reading_def)
  have one: "unat (65535 :: 16 word) = min (unat (999999 :: 32 word)) 65535"
    using T1 wrap_1 wrap_u32_1 by auto
  have n: "(2000000 :: 32 word) \<noteq> 0" "32000 \<le> uint (125000000 :: 32 word)"
    by simp_all
  from T2 n have d: "\<exists>r. calculate_wrap 125000000 2000000 CLK_DIV_DEFAULT = Inr r"
    by blast
  obtain h' where p: "play_tone BUZZER_PIN 2000000 200 (board_reading 2048) = Inr h'"
    using wrap_2000000 k by (simp add: play_tone_def Let_def)
  have "trace h' = trace (board_reading 2048) @ tone_events BUZZER_PIN 2000000 200 0"
    using T2 wrap_2000000 k p by blast
  then have t: "trace h' = tone_events BUZZER_PIN 2000000 200 0"
    using e by simp
  have lt: "(125000000 :: rat) < 250000000"
    by simp
  show ?thesis
    using wrap_1 wrap_u32_1 one wrap_2000000 clock_as_float product_as_float lt k p t n d
    by blast
qed

text \<open>
  C10 as stated fails: with a 125 MHz clock, \<open>target_frequency\<close> 2000000 and the default
  divisor 125 the product exceeds the clock, yet the local \<open>wrap\<close> is 0, not a wrapped
  value above 65535, and 0 is returned, not 65535.
\<close>

theorem calculate_wrap_clamped_counterexample:
  "uint (125000000 :: 32 word) < uint (2000000 :: 32 word) * 125 \<and>
   wrap_u32 125000000 2000000 CLK_DIV_DEFAULT = Inr 0 \<and>
   calculate_wrap 125000000 2000000 CLK_DIV_DEFAULT = Inr 0 \<and>
   (0 :: 16 word) \<noteq> 65535"
  using wrap_u32_2000000 wrap_2000000 by simp

section \<open>Properties of the playback update\<close>

lemma update_sound_not_playing:
  assumes "\<not> is_playing (player s)"
  shows "update_sound M s =
           Inr (s\<lparr>pico := (pico s)
                  \<lparr>trace := trace (pico s) @ [Pwm_set_gpio_level BUZZER_PIN 0]\<rparr>\<rparr>)"
  using assms by (simp add: update_sound_def pwm_set_gpio_level_def emit_def)

text \<open>
  C9. When the player is paused, \<open>update_sound\<close> records one command, the PWM level 0
  on the buzzer pin, and changes nothing else: the player (\<open>freq_mult\<close>,
  \<open>current_note\<close>, \<open>current_freq\<close>, \<open>next_note_time\<close>), the buttons, the clock and the
  ADC are as before; the joystick is not read.
\<close>

theorem update_sound_paused:
  assumes "\<not> is_playing (player s)"
  shows "update_sound M s =
           Inr (s\<lparr>pico := (pico s)
                  \<lparr>trace := trace (pico s) @ [Pwm_set_gpio_level BUZZER_PIN 0]\<rparr>\<rparr>)"
  using assms by (rule update_sound_not_playing)

theorem update_sound_paused_witness:
  "\<not> is_playing (player (genius_boot 2048)) \<and>
   update_sound catalogue (genius_boot 2048) =
     Inr ((genius_boot 2048)\<lparr>pico := (pico (genius_boot 2048))
            \<lparr>trace := trace (pico (genius_boot 2048)) @ [Pwm_set_gpio_level BUZZER_PIN 0]\<rparr>\<rparr>)"
proof -
  have h: "\<not> is_playing (player (genius_boot 2048))"
    by (simp add: genius_boot_def player_boot_def)
  show ?thesis
    using update_sound_paused [OF h, of catalogue] h by simp
qed

text \<open>\<open>update_sound\<close> while playing, with the joystick read and the clock test unfolded.\<close>

lemma update_sound_playing_unfold:
  assumes "is_playing (player s)"
  shows "update_sound M s =
     (let h = (pico s)\<lparr>adc_selected := 1\<rparr>;
          p = (player s)\<lparr>freq_mult := new_freq_mult s\<rparr>
      in if next_note_time (player s) \<le> now (pico s) then
             (case array_read_int M (index (buttons s)) of
                Inl e \<Rightarrow> Inl e
              | Inr m \<Rightarrow>
                  if sint (melody_length m) \<le> sint (current_note (player s)) then
                    Inr (s\<lparr>player := p\<lparr>is_playing := False\<rparr>, pico := h\<rparr>)
                  else
                    (case array_read_int (melody m) (current_note (player s)) of
                       Inl e \<Rightarrow> Inl e
                     | Inr original \<Rightarrow>
                         (case array_read_int (durations m) (current_note (player s)) of
                            Inl e \<Rightarrow> Inl e
                          | Inr duration \<Rightarrow>
                              if 0 < sint original then
                                (case f32_to_int32
                                        (f32_mul (f32_of_int (sint original)) (new_freq_mult s)) of
                                   Inl e \<Rightarrow> Inl e
                                 | Inr f \<Rightarrow>
                                     (case play_tone BUZZER_PIN f duration h of
                                        Inl e \<Rightarrow> Inl e
                                      | Inr h' \<Rightarrow>
                                          Inr (note_done s (p\<lparr>current_freq := f\<rparr>)
                                                 duration h')))
                              else
                                Inr (note_done s (p\<lparr>current_freq := 0\<rparr>) duration
                                       (sleep_ms duration h)))))
           else Inr (s\<lparr>player := p, pico := h\<rparr>))"
  using assms
  by (simp add: update_sound_def joystickPi_read_def time_reached_def new_freq_mult_def Let_def
      cong: sum.case_cong if_cong)

lemma update_sound_past_end:
  assumes "is_playing (player s)" and "time_reached (pico s) (next_note_time (player s))"
    and "array_read_int M (index (buttons s)) = Inr m"
    and "sint (melody_length m) \<le> sint (current_note (player s))"
  shows "update_sound M s =
           Inr (s\<lparr>player := (player s)\<lparr>freq_mult := new_freq_mult s, is_playing := False\<rparr>,
                  pico := (pico s)\<lparr>adc_selected := 1\<rparr>\<rparr>)"
  using assms by (simp add: update_sound_playing_unfold time_reached_def Let_def)

lemma update_sound_waiting:
  assumes "is_playing (player s)"
    and "\<not> time_reached (pico s) (next_note_time (player s))"
  shows "update_sound M s =
           Inr (s\<lparr>player := (player s)\<lparr>freq_mult := new_freq_mult s\<rparr>,
                  pico := (pico s)\<lparr>adc_selected := 1\<rparr>\<rparr>)"
  using assms by (simp add: update_sound_playing_unfold time_reached_def Let_def)

text \<open>
  C4, as it holds. With \<open>current_note\<close> at or beyond the selected melody's length, a call
  of \<open>update_sound\<close> made while playing with the deadline reached only sets
  \<open>is_playing\<close> to false, after the joystick read: \<open>current_note\<close> is kept and nothing
  is recorded on the board. In every case the call returns without a fault and without
  reading either array, keeps \<open>current_note\<close>, records at most the level-0 command of
  the paused player, and leaves the player playing exactly when it was playing and the
  deadline is not reached yet.
\<close>

theorem update_sound_end_of_melody:
  assumes "array_read_int M (index (buttons s)) = Inr m"
    and "sint (melody_length m) \<le> sint (current_note (player s))"
  shows "(is_playing (player s) \<and> time_reached (pico s) (next_note_time (player s)) \<longrightarrow>
            update_sound M s =
              Inr (s\<lparr>player := (player s)\<lparr>freq_mult := new_freq_mult s, is_playing := False\<rparr>,
                     pico := (pico s)\<lparr>adc_selected := 1\<rparr>\<rparr>))
       \<and> (\<exists>s'. update_sound M s = Inr s' \<and>
                current_note (player s') = current_note (player s) \<and>
                is_playing (player s') =
                  (is_playing (player s) \<and>
                   \<not> time_reached (pico s) (next_note_time (player s))) \<and>
                (trace (pico s') = trace (pico s) \<or>
                 trace (pico s') = trace (pico s) @ [Pwm_set_gpio_level BUZZER_PIN 0]))"
proof (cases "is_playing (player s)")
  case False
  then show ?thesis
    by (simp add: update_sound_not_playing)
next
  case True
  show ?thesis
  proof (cases "time_reached (pico s) (next_note_time (player s))")
    case True
    with \<open>is_playing (player s)\<close> assms show ?thesis
      by (simp add: update_sound_past_end)
  next
    case False
    with \<open>is_playing (player s)\<close> show ?thesis
      by (simp add: update_sound_waiting)
  qed
qed

theorem update_sound_end_of_melody_witness:
  "array_read_int catalogue (index (buttons ((genius_boot 2048)
      \<lparr>player := player_boot\<lparr>is_playing := True, current_note := 3\<rparr>\<rparr>))) = Inr three_notes \<and>
   sint (melody_length three_notes) \<le> sint (current_note (player ((genius_boot 2048)
      \<lparr>player := player_boot\<lparr>is_playing := True, current_note := 3\<rparr>\<rparr>))) \<and>
   (\<exists>s'. update_sound catalogue ((genius_boot 2048)
      \<lparr>player := player_boot\<lparr>is_playing := True, current_note := 3\<rparr>\<rparr>) = Inr s' \<and>
     \<not> is_playing (player s') \<and> current_note (player s') = 3 \<and> trace (pico s') = [])"
proof -
  let ?s = "(genius_boot 2048)\<lparr>player := player_boot\<lparr>is_playing := True, current_note := 3\<rparr>\<rparr>"
  have m: "array_read_int catalogue (index (buttons ?s)) = Inr three_notes"
    by (simp add: array_read_int_def array_read_def catalogue_def genius_boot_def
        buttons_boot_def)
  have n: "sint (melody_length three_notes) \<le> sint (current_note (player ?s))"
    by (simp add: three_notes_def)
  have p: "is_playing (player ?s)"
    and t: "time_reached (pico ?s) (next_note_time (player ?s))"
    by (simp_all add: genius_boot_def player_boot_def board_reading_def time_reached_def)
  have "update_sound catalogue ?s =
          Inr (?s\<lparr>player := (player ?s)\<lparr>freq_mult := new_freq_mult ?s, is_playing := False\<rparr>,
                  pico := (pico ?s)\<lparr>adc_selected := 1\<rparr>\<rparr>)"
    using update_sound_end_of_melody [OF m n] p t by blast
  then have "\<exists>s'. update_sound catalogue ?s = Inr s' \<and> \<not> is_playing (player s') \<and>
               current_note (player s') = 3 \<and> trace (pico s') = []"
    by (simp add: genius_boot_def board_reading_def)
  with m n show ?thesis
    by blast
qed

text \<open>
  The three other outcomes of \<open>update_sound\<close> while playing: the deadline not reached,
  a note, a rest. After a note or a rest \<open>current_note\<close> is one more, and the deadline is
  the clock after the blocking call plus the duration.
\<close>

lemma update_sound_tone:
  assumes "is_playing (player s)"
    and "time_reached (pico s) (next_note_time (player s))"
    and "array_read_int M (index (buttons s)) = Inr m"
    and "sint (current_note (player s)) < sint (melody_length m)"
    and "array_read_int (melody m) (current_note (player s)) = Inr original"
    and "array_read_int (durations m) (current_note (player s)) = Inr duration"
    and "0 < sint original"
    and "f32_to_int32 (f32_mul (f32_of_int (sint original)) (new_freq_mult s)) = Inr f"
    and "calculate_wrap (clk_sys_hz (pico s)) f CLK_DIV_DEFAULT = Inr w"
  shows "update_sound M s =
           Inr (s\<lparr>player := (player s)
                    \<lparr>freq_mult := new_freq_mult s,
                     current_freq := f,
                     current_note := current_note (player s) + 1,
                     next_note_time :=
                       now (pico s) + 1000 * ucast duration + 1000 * ucast duration\<rparr>,
                  pico := (pico s)
                    \<lparr>adc_selected := 1,
                     now := now (pico s) + 1000 * ucast duration,
                     trace := trace (pico s) @ tone_events BUZZER_PIN f duration w\<rparr>\<rparr>)"
  using assms
  by (simp add: update_sound_playing_unfold time_reached_def Let_def play_tone_result
      note_done_def make_timeout_time_ms_def)

lemma update_sound_rest:
  assumes "is_playing (player s)"
    and "time_reached (pico s) (next_note_time (player s))"
    and "array_read_int M (index (buttons s)) = Inr m"
    and "sint (current_note (player s)) < sint (melody_length m)"
    and "array_read_int (melody m) (current_note (player s)) = Inr original"
    and "array_read_int (durations m) (current_note (player s)) = Inr duration"
    and "sint original \<le> 0"
  shows "update_sound M s =
           Inr (s\<lparr>player := (player s)
                    \<lparr>freq_mult := new_freq_mult s,
                     current_freq := 0,
                     current_note := current_note (player s) + 1,
                     next_note_time :=
                       now (pico s) + 1000 * ucast duration + 1000 * ucast duration\<rparr>,
                  pico := (pico s)
                    \<lparr>adc_selected := 1,
                     now := now (pico s) + 1000 * ucast duration,
                     trace := trace (pico s) @ [Sleep_ms duration]\<rparr>\<rparr>)"
  using assms
  by (simp add: update_sound_playing_unfold time_reached_def Let_def
      note_done_def make_timeout_time_ms_def sleep_ms_def emit_def)

text \<open>Values of the multiplier, of the converted product and of the wrap, computed.\<close>

lemma fm_4095:
  "f32_add (Fin (1 / 2)) (f32_div (f32_of_int (uint (4095 :: 16 word))) (Fin 4095)) = Fin (3 / 2)"
  by code_simp

lemma fm_2048:
  "f32_add (Fin (1 / 2)) (f32_div (f32_of_int (uint (2048 :: 16 word))) (Fin 4095)) =
     Fin (8193 / 8192)"
  by code_simp

lemma fm_0:
  "f32_add (Fin (1 / 2)) (f32_div (f32_of_int (uint (0 :: 16 word))) (Fin 4095)) = Fin (1 / 2)"
  by code_simp

lemma mul_440_hi: "f32_mul (f32_of_int (sint (440 :: 32 word))) (Fin (3 / 2)) = Fin 660"
  by code_simp

lemma mul_441_hi: "f32_mul (f32_of_int (sint (441 :: 32 word))) (Fin (3 / 2)) = Fin (1323 / 2)"
  by code_simp

lemma conv_440_hi:
  "f32_to_int32 (f32_mul (f32_of_int (sint (440 :: 32 word))) (Fin (3 / 2))) = Inr 660"
  by code_simp

lemma conv_441_hi:
  "f32_to_int32 (f32_mul (f32_of_int (sint (441 :: 32 word))) (Fin (3 / 2))) = Inr 661"
  by code_simp

lemma conv_440_mid:
  "f32_to_int32 (f32_mul (f32_of_int (sint (440 :: 32 word))) (Fin (8193 / 8192))) = Inr 440"
  by code_simp

lemma conv_880_mid:
  "f32_to_int32 (f32_mul (f32_of_int (sint (880 :: 32 word))) (Fin (8193 / 8192))) = Inr 880"
  by code_simp

lemma conv_440_lo:
  "f32_to_int32 (f32_mul (f32_of_int (sint (440 :: 32 word))) (Fin (1 / 2))) = Inr 220"
  by code_simp

lemma wrap_660: "calculate_wrap 125000000 660 CLK_DIV_DEFAULT = Inr 1514"
  by code_simp

lemma wrap_661: "calculate_wrap 125000000 661 CLK_DIV_DEFAULT = Inr 1511"
  by code_simp

lemma wrap_880: "calculate_wrap 125000000 880 CLK_DIV_DEFAULT = Inr 1135"
  by code_simp

lemma wrap_220: "calculate_wrap 125000000 220 CLK_DIV_DEFAULT = Inr 4544"
  by code_simp

lemma fm_2047:
  "f32_add (Fin (1 / 2)) (f32_div (f32_of_int (uint (2047 :: 16 word))) (Fin 4095)) =
     Fin (8191 / 8192)"
  by code_simp

lemma conv_440_below:
  "f32_to_int32 (f32_mul (f32_of_int (sint (440 :: 32 word))) (Fin (8191 / 8192))) = Inr 439"
  by code_simp

lemma wrap_439: "calculate_wrap 125000000 439 CLK_DIV_DEFAULT = Inr 2276"
  by code_simp

lemma new_freq_mult_reading:
  "adc_channel (pico s) 0 = x \<Longrightarrow>
   new_freq_mult s = f32_add (Fin (1 / 2)) (f32_div (f32_of_int (uint x)) (Fin 4095))"
  by (simp add: new_freq_mult_def)

text \<open>
  C4 as stated fails: right after the last note the player is playing with
  \<open>current_note\<close> at the melody's length and the deadline still ahead; \<open>update_sound\<close>
  then leaves it playing.
\<close>

theorem update_sound_end_of_melody_counterexample:
  "array_read_int catalogue (index (buttons after_last_note)) = Inr three_notes \<and>
   sint (melody_length three_notes) \<le> sint (current_note (player after_last_note)) \<and>
   update_sound catalogue after_last_note =
     Inr (after_last_note
            \<lparr>player := (player after_last_note)\<lparr>freq_mult := Fin (8193 / 8192)\<rparr>,
             pico := (pico after_last_note)\<lparr>adc_selected := 1\<rparr>\<rparr>) \<and>
   is_playing (player (after_last_note
            \<lparr>player := (player after_last_note)\<lparr>freq_mult := Fin (8193 / 8192)\<rparr>,
             pico := (pico after_last_note)\<lparr>adc_selected := 1\<rparr>\<rparr>))"
proof -
  let ?s = "after_last_note"
  have m: "array_read_int catalogue (index (buttons ?s)) = Inr three_notes"
    by (simp add: array_read_int_def array_read_def catalogue_def genius_boot_def
        buttons_boot_def after_last_note_def)
  have n: "sint (melody_length three_notes) \<le> sint (current_note (player ?s))"
    by (simp add: three_notes_def after_last_note_def)
  have p: "is_playing (player ?s)"
    and t: "\<not> time_reached (pico ?s) (next_note_time (player ?s))"
    by (simp_all add: genius_boot_def player_boot_def board_reading_def time_reached_def
        after_last_note_def)
  have "adc_channel (pico ?s) 0 = 2048"
    by (simp add: after_last_note_def genius_boot_def board_reading_def)
  then have nf: "new_freq_mult ?s = Fin (8193 / 8192)"
    by (simp only: new_freq_mult_reading fm_2048)
  have "update_sound catalogue ?s =
          Inr (?s\<lparr>player := (player ?s)\<lparr>freq_mult := new_freq_mult ?s\<rparr>,
                  pico := (pico ?s)\<lparr>adc_selected := 1\<rparr>\<rparr>)"
    using p t by (rule update_sound_waiting)
  with m n p show ?thesis
    unfolding nf by simp
qed

text \<open>
  C5, as it holds. When the note step plays a note of positive stored frequency, the
  frequency recorded in \<open>current_freq\<close> and passed to \<open>play_tone\<close> is the
  single-precision product of the stored frequency and the multiplier just computed from
  the joystick, with its fractional part discarded (truncated, not rounded to nearest).
\<close>

theorem update_sound_effective_frequency:
  assumes "is_playing (player s)"
    and "time_reached (pico s) (next_note_time (player s))"
    and "array_read_int M (index (buttons s)) = Inr m"
    and "sint (current_note (player s)) < sint (melody_length m)"
    and "array_read_int (melody m) (current_note (player s)) = Inr original"
    and "array_read_int (durations m) (current_note (player s)) = Inr duration"
    and "0 < sint original"
    and "update_sound M s = Inr s'"
  shows "freq_mult (player s') = new_freq_mult s \<and>
         (\<exists>r. f32_mul (f32_of_int (sint original)) (freq_mult (player s')) = Fin r \<and>
              sint (current_freq (player s')) = c_trunc r) \<and>
         (\<exists>w. trace (pico s') =
                trace (pico s) @ tone_events BUZZER_PIN (current_freq (player s')) duration w)"
proof -
  obtain f where f: "f32_to_int32 (f32_mul (f32_of_int (sint original)) (new_freq_mult s)) = Inr f"
    using assms
    by (auto simp add: update_sound_playing_unfold time_reached_def Let_def split: sum.splits)
  obtain w where w: "calculate_wrap (clk_sys_hz (pico s)) f CLK_DIV_DEFAULT = Inr w"
    using assms f
    by (auto simp add: update_sound_playing_unfold time_reached_def Let_def play_tone_def
        split: sum.splits)
  note u = update_sound_tone [OF assms(1-7) f w]
  from f obtain r where r: "f32_mul (f32_of_int (sint original)) (new_freq_mult s) = Fin r"
    and range: "- (2 ^ 31) \<le> c_trunc r" "c_trunc r < 2 ^ 31" and fr: "f = word_of_int (c_trunc r)"
    by (auto simp add: f32_to_int32_def split: f32.splits if_splits)
  have "sint f = c_trunc r"
    unfolding fr using range
    by (simp only: sint_sbintrunc' signed_take_bit_int_eq_self_iff) simp
  with u assms(8) r show ?thesis
    by auto
qed


theorem update_sound_effective_frequency_witness:
  "is_playing (player (playing_from_start 4095)) \<and>
   time_reached (pico (playing_from_start 4095))
     (next_note_time (player (playing_from_start 4095))) \<and>
   array_read_int catalogue (index (buttons (playing_from_start 4095))) = Inr three_notes \<and>
   sint (current_note (player (playing_from_start 4095))) < sint (melody_length three_notes) \<and>
   array_read_int (melody three_notes) (current_note (player (playing_from_start 4095))) =
     Inr 440 \<and>
   array_read_int (durations three_notes) (current_note (player (playing_from_start 4095))) =
     Inr 200 \<and>
   0 < sint (440 :: 32 word) \<and>
   (\<exists>s'. update_sound catalogue (playing_from_start 4095) = Inr s' \<and>
         freq_mult (player s') = Fin (3 / 2) \<and>
         sint (current_freq (player s')) = 660 \<and>
         (\<exists>w. trace (pico s') = tone_events BUZZER_PIN (current_freq (player s')) 200 w))"
proof -
  let ?s = "playing_from_start 4095"
  have h1: "is_playing (player ?s)"
    and h2: "time_reached (pico ?s) (next_note_time (player ?s))"
    and h3: "array_read_int catalogue (index (buttons ?s)) = Inr three_notes"
    and h4: "sint (current_note (player ?s)) < sint (melody_length three_notes)"
    and h5: "array_read_int (melody three_notes) (current_note (player ?s)) = Inr 440"
    and h6: "array_read_int (durations three_notes) (current_note (player ?s)) = Inr 200"
    and h7: "0 < sint (440 :: 32 word)"
    by (simp_all add: playing_from_start_def genius_boot_def player_boot_def buttons_boot_def
        board_reading_def time_reached_def array_read_int_def array_read_def catalogue_def
        three_notes_def)
  have "adc_channel (pico ?s) 0 = 4095"
    by (simp add: playing_from_start_def genius_boot_def board_reading_def)
  then have nf: "new_freq_mult ?s = Fin (3 / 2)"
    by (simp only: new_freq_mult_reading fm_4095)
  have f: "f32_to_int32 (f32_mul (f32_of_int (sint (440 :: 32 word))) (new_freq_mult ?s)) =
             Inr 660"
    unfolding nf by (rule conv_440_hi)
  have w: "calculate_wrap (clk_sys_hz (pico ?s)) 660 CLK_DIV_DEFAULT = Inr 1514"
    by (simp add: wrap_660 playing_from_start_def genius_boot_def board_reading_def)
  obtain s' where u: "update_sound catalogue ?s = Inr s'"
    using update_sound_tone [OF h1 h2 h3 h4 h5 h6 h7 f w] by blast
  have e: "trace (pico ?s) = []"
    by (simp add: playing_from_start_def genius_boot_def board_reading_def)
  from update_sound_effective_frequency [OF h1 h2 h3 h4 h5 h6 h7 u]
  obtain r w where a: "freq_mult (player s') = new_freq_mult ?s"
    and b: "f32_mul (f32_of_int (sint (440 :: 32 word))) (freq_mult (player s')) = Fin r"
    and c: "sint (current_freq (player s')) = c_trunc r"
    and d: "trace (pico s') =
              trace (pico ?s) @ tone_events BUZZER_PIN (current_freq (player s')) 200 w"
    by blast
  have "r = 660"
    using b unfolding a nf mul_440_hi by simp
  then have "sint (current_freq (player s')) = 660"
    using c by (simp add: c_trunc_def)
  moreover have "freq_mult (player s') = Fin (3 / 2)"
    using a nf by simp
  moreover have "\<exists>w. trace (pico s') = tone_events BUZZER_PIN (current_freq (player s')) 200 w"
    using d e by auto
  ultimately show ?thesis
    using u h1 h2 h3 h4 h5 h6 h7 by blast
qed

text \<open>
  C5 as stated fails: with the joystick at 4095 (multiplier 1.5) and a stored frequency
  of 441 the product is 661.5 and the frequency recorded and played is 661, while rounding
  gives 662.
\<close>

theorem update_sound_effective_frequency_counterexample:
  "update_sound [single_note 441 200] (playing_from_start 4095) =
     Inr ((playing_from_start 4095)
            \<lparr>player := \<lparr>current_note = 1, is_playing = True, next_note_time = 1400000,
                        freq_mult = Fin (3 / 2), current_freq = 661\<rparr>,
             pico := (board_reading 4095)
                       \<lparr>adc_selected := 1, now := 1200000,
                        trace := tone_events BUZZER_PIN 661 200 1511\<rparr>\<rparr>) \<and>
   round (441 * (3 / 2) :: rat) = 662"
proof -
  let ?s = "playing_from_start 4095"
  have h1: "is_playing (player ?s)"
    and h2: "time_reached (pico ?s) (next_note_time (player ?s))"
    and h3: "array_read_int [single_note 441 200] (index (buttons ?s)) =
               Inr (single_note 441 200)"
    and h4: "sint (current_note (player ?s)) < sint (melody_length (single_note 441 200))"
    and h5: "array_read_int (melody (single_note 441 200)) (current_note (player ?s)) =
               Inr 441"
    and h6: "array_read_int (durations (single_note 441 200)) (current_note (player ?s)) =
               Inr 200"
    and h7: "0 < sint (441 :: 32 word)"
    by (simp_all add: playing_from_start_def genius_boot_def player_boot_def buttons_boot_def
        board_reading_def time_reached_def array_read_int_def array_read_def single_note_def)
  have "adc_channel (pico ?s) 0 = 4095"
    by (simp add: playing_from_start_def genius_boot_def board_reading_def)
  then have nf: "new_freq_mult ?s = Fin (3 / 2)"
    by (simp only: new_freq_mult_reading fm_4095)
  have f: "f32_to_int32 (f32_mul (f32_of_int (sint (441 :: 32 word))) (new_freq_mult ?s)) =
             Inr 661"
    unfolding nf by (rule conv_441_hi)
  have w: "calculate_wrap (clk_sys_hz (pico ?s)) 661 CLK_DIV_DEFAULT = Inr 1511"
    by (simp add: wrap_661 playing_from_start_def genius_boot_def board_reading_def)
  have r: "round (441 * (3 / 2) :: rat) = 662"
    by (simp add: round_def)
  show ?thesis
    using update_sound_tone [OF h1 h2 h3 h4 h5 h6 h7 f w] nf r
    by (simp add: playing_from_start_def genius_boot_def board_reading_def player_boot_def)
qed

text \<open>
  The steps of \<open>update_sound\<close> on the three-note melody, selected in the catalogue, with
  the joystick reading 2048 and the 125 MHz clock.
\<close>

lemma three_notes_first:
  assumes "is_playing (player s)" and "time_reached (pico s) (next_note_time (player s))"
    and "index (buttons s) = 0" and "current_note (player s) = 0"
    and "adc_channel (pico s) 0 = 2048" and "clk_sys_hz (pico s) = 125000000"
  shows "update_sound catalogue s =
           Inr (s\<lparr>player := (player s)
                    \<lparr>freq_mult := Fin (8193 / 8192), current_freq := 440, current_note := 1,
                     next_note_time := now (pico s) + 400000\<rparr>,
                  pico := (pico s)
                    \<lparr>adc_selected := 1, now := now (pico s) + 200000,
                     trace := trace (pico s) @ tone_events BUZZER_PIN 440 200 2271\<rparr>\<rparr>)"
proof -
  have nf: "new_freq_mult s = Fin (8193 / 8192)"
    using assms(5) by (simp only: new_freq_mult_reading fm_2048)
  have m: "array_read_int catalogue (index (buttons s)) = Inr three_notes"
    and l: "sint (current_note (player s)) < sint (melody_length three_notes)"
    and o: "array_read_int (melody three_notes) (current_note (player s)) = Inr 440"
    and d: "array_read_int (durations three_notes) (current_note (player s)) = Inr 200"
    and p: "0 < sint (440 :: 32 word)"
    using assms(3,4)
    by (simp_all add: array_read_int_def array_read_def catalogue_def three_notes_def)
  have f: "f32_to_int32 (f32_mul (f32_of_int (sint (440 :: 32 word))) (new_freq_mult s)) =
             Inr 440"
    unfolding nf by (rule conv_440_mid)
  have w: "calculate_wrap (clk_sys_hz (pico s)) 440 CLK_DIV_DEFAULT = Inr 2271"
    unfolding assms(6) by (rule wrap_440)
  show ?thesis
    using update_sound_tone [OF assms(1,2) m l o d p f w] assms(4) nf by simp
qed

lemma three_notes_second:
  assumes "is_playing (player s)" and "time_reached (pico s) (next_note_time (player s))"
    and "index (buttons s) = 0" and "current_note (player s) = 1"
    and "adc_channel (pico s) 0 = 2048"
  shows "update_sound catalogue s =
           Inr (s\<lparr>player := (player s)
                    \<lparr>freq_mult := Fin (8193 / 8192), current_freq := 0, current_note := 2,
                     next_note_time := now (pico s) + 200000\<rparr>,
                  pico := (pico s)
                    \<lparr>adc_selected := 1, now := now (pico s) + 100000,
                     trace := trace (pico s) @ [Sleep_ms 100]\<rparr>\<rparr>)"
proof -
  have nf: "new_freq_mult s = Fin (8193 / 8192)"
    using assms(5) by (simp only: new_freq_mult_reading fm_2048)
  have m: "array_read_int catalogue (index (buttons s)) = Inr three_notes"
    and l: "sint (current_note (player s)) < sint (melody_length three_notes)"
    and o: "array_read_int (melody three_notes) (current_note (player s)) = Inr 0"
    and d: "array_read_int (durations three_notes) (current_note (player s)) = Inr 100"
    and p: "sint (0 :: 32 word) \<le> 0"
    using assms(3,4)
    by (simp_all add: array_read_int_def array_read_def catalogue_def three_notes_def)
  show ?thesis
    using update_sound_rest [OF assms(1,2) m l o d p] assms(4) nf by simp
qed

lemma three_notes_third:
  assumes "is_playing (player s)" and "time_reached (pico s) (next_note_time (player s))"
    and "index (buttons s) = 0" and "current_note (player s) = 2"
    and "adc_channel (pico s) 0 = 2048" and "clk_sys_hz (pico s) = 125000000"
  shows "update_sound catalogue s =
           Inr (s\<lparr>player := (player s)
                    \<lparr>freq_mult := Fin (8193 / 8192), current_freq := 880, current_note := 3,
                     next_note_time := now (pico s) + 600000\<rparr>,
                  pico := (pico s)
                    \<lparr>adc_selected := 1, now := now (pico s) + 300000,
                     trace := trace (pico s) @ tone_events BUZZER_PIN 880 300 1135\<rparr>\<rparr>)"
proof -
  have nf: "new_freq_mult s = Fin (8193 / 8192)"
    using assms(5) by (simp only: new_freq_mult_reading fm_2048)
  have m: "array_read_int catalogue (index (buttons s)) = Inr three_notes"
    and l: "sint (current_note (player s)) < sint (melody_length three_notes)"
    and o: "array_read_int (melody three_notes) (current_note (player s)) = Inr 880"
    and d: "array_read_int (durations three_notes) (current_note (player s)) = Inr 300"
    and p: "0 < sint (880 :: 32 word)"
    using assms(3,4)
    by (simp_all add: array_read_int_def array_read_def catalogue_def three_notes_def)
  have f: "f32_to_int32 (f32_mul (f32_of_int (sint (880 :: 32 word))) (new_freq_mult s)) =
             Inr 880"
    unfolding nf by (rule conv_880_mid)
  have w: "calculate_wrap (clk_sys_hz (pico s)) 880 CLK_DIV_DEFAULT = Inr 1135"
    unfolding assms(6) by (rule wrap_880)
  show ?thesis
    using update_sound_tone [OF assms(1,2) m l o d p f w] assms(4) nf by simp
qed

lemma three_notes_end:
  assumes "is_playing (player s)" and "time_reached (pico s) (next_note_time (player s))"
    and "index (buttons s) = 0" and "current_note (player s) = 3"
  shows "update_sound catalogue s =
           Inr (s\<lparr>player := (player s)\<lparr>freq_mult := new_freq_mult s, is_playing := False\<rparr>,
                  pico := (pico s)\<lparr>adc_selected := 1\<rparr>\<rparr>)"
proof -
  have m: "array_read_int catalogue (index (buttons s)) = Inr three_notes"
    and l: "sint (melody_length three_notes) \<le> sint (current_note (player s))"
    using assms(3,4)
    by (simp_all add: array_read_int_def array_read_def catalogue_def three_notes_def)
  show ?thesis
    using assms(1,2) m l by (rule update_sound_past_end)
qed

text \<open>
  C6, as it holds. The multiplier used for a note is the one computed from the joystick in
  the same call, not the stored one. With the joystick reading 2048 (multiplier 8193/8192)
  and the player playing from note 0 of the melody with frequencies 440, 0, 880 and
  durations 200, 100, 300: the first poll plays (440, 200); a poll at the deadline then
  waits 100 in silence with recorded frequency 0; a poll at the next deadline plays
  (880, 300); a poll at the next deadline sets the player to paused with \<open>current_note\<close>
  at 3 and records nothing; a later poll records only the level-0 command; after the
  button-B flag is consumed the next poll plays (440, 200) again. After each note or rest
  \<open>current_note\<close> is one more and the deadline is the clock after the blocking call plus
  the duration; a poll made at once after a note or rest, before that deadline, records
  nothing.
\<close>

theorem three_note_playback:
  "\<exists>s1 s2 s3 s4 s5 s6 r1 r2 r3.
     update_sound catalogue (playing_from_start 2048) = Inr s1 \<and>
     trace (pico s1) = tone_events BUZZER_PIN 440 200 2271 \<and>
     current_freq (player s1) = 440 \<and> current_note (player s1) = 1 \<and>
     is_playing (player s1) \<and> next_note_time (player s1) = now (pico s1) + 200000 \<and>
     update_sound catalogue s1 = Inr r1 \<and> trace (pico r1) = trace (pico s1) \<and>
     update_sound catalogue (at_deadline s1) = Inr s2 \<and>
     trace (pico s2) = trace (pico s1) @ [Sleep_ms 100] \<and>
     current_freq (player s2) = 0 \<and> current_note (player s2) = 2 \<and>
     is_playing (player s2) \<and> next_note_time (player s2) = now (pico s2) + 100000 \<and>
     update_sound catalogue s2 = Inr r2 \<and> trace (pico r2) = trace (pico s2) \<and>
     update_sound catalogue (at_deadline s2) = Inr s3 \<and>
     trace (pico s3) = trace (pico s2) @ tone_events BUZZER_PIN 880 300 1135 \<and>
     current_freq (player s3) = 880 \<and> current_note (player s3) = 3 \<and>
     is_playing (player s3) \<and> next_note_time (player s3) = now (pico s3) + 300000 \<and>
     update_sound catalogue s3 = Inr r3 \<and> trace (pico r3) = trace (pico s3) \<and>
     update_sound catalogue (at_deadline s3) = Inr s4 \<and>
     trace (pico s4) = trace (pico s3) \<and>
     current_note (player s4) = 3 \<and> \<not> is_playing (player s4) \<and>
     update_sound catalogue (at_deadline s4) = Inr s5 \<and>
     trace (pico s5) = trace (pico s4) @ [Pwm_set_gpio_level BUZZER_PIN 0] \<and>
     current_note (player s5) = 3 \<and> \<not> is_playing (player s5) \<and>
     update_sound catalogue
       (handle_input catalogue (s5\<lparr>buttons := (buttons s5)\<lparr>b_pressed := True\<rparr>\<rparr>)) = Inr s6 \<and>
     trace (pico s6) = trace (pico s5) @ tone_events BUZZER_PIN 440 200 2271 \<and>
     current_freq (player s6) = 440 \<and> current_note (player s6) = 1 \<and>
     is_playing (player s6)"
proof -
  let ?s0 = "playing_from_start 2048"
  define s1 where "s1 = ?s0\<lparr>player := (player ?s0)
                    \<lparr>freq_mult := Fin (8193 / 8192), current_freq := 440, current_note := 1,
                     next_note_time := now (pico ?s0) + 400000\<rparr>,
                  pico := (pico ?s0)
                    \<lparr>adc_selected := 1, now := now (pico ?s0) + 200000,
                     trace := trace (pico ?s0) @ tone_events BUZZER_PIN 440 200 2271\<rparr>\<rparr>"
  define d1 where "d1 = at_deadline s1"
  define s2 where "s2 = d1\<lparr>player := (player d1)
                    \<lparr>freq_mult := Fin (8193 / 8192), current_freq := 0, current_note := 2,
                     next_note_time := now (pico d1) + 200000\<rparr>,
                  pico := (pico d1)
                    \<lparr>adc_selected := 1, now := now (pico d1) + 100000,
                     trace := trace (pico d1) @ [Sleep_ms 100]\<rparr>\<rparr>"
  define d2 where "d2 = at_deadline s2"
  define s3 where "s3 = d2\<lparr>player := (player d2)
                    \<lparr>freq_mult := Fin (8193 / 8192), current_freq := 880, current_note := 3,
                     next_note_time := now (pico d2) + 600000\<rparr>,
                  pico := (pico d2)
                    \<lparr>adc_selected := 1, now := now (pico d2) + 300000,
                     trace := trace (pico d2) @ tone_events BUZZER_PIN 880 300 1135\<rparr>\<rparr>"
  define d3 where "d3 = at_deadline s3"
  define s4 where "s4 = d3\<lparr>player := (player d3)
                     \<lparr>freq_mult := new_freq_mult d3, is_playing := False\<rparr>,
                   pico := (pico d3)\<lparr>adc_selected := 1\<rparr>\<rparr>"
  define d4 where "d4 = at_deadline s4"
  define s5 where "s5 = d4\<lparr>pico := (pico d4)
                     \<lparr>trace := trace (pico d4) @ [Pwm_set_gpio_level BUZZER_PIN 0]\<rparr>\<rparr>"
  define t5 where
    "t5 = handle_input catalogue (s5\<lparr>buttons := (buttons s5)\<lparr>b_pressed := True\<rparr>\<rparr>)"
  define s6 where "s6 = t5\<lparr>player := (player t5)
                    \<lparr>freq_mult := Fin (8193 / 8192), current_freq := 440, current_note := 1,
                     next_note_time := now (pico t5) + 400000\<rparr>,
                  pico := (pico t5)
                    \<lparr>adc_selected := 1, now := now (pico t5) + 200000,
                     trace := trace (pico t5) @ tone_events BUZZER_PIN 440 200 2271\<rparr>\<rparr>"
  note start = playing_from_start_def genius_boot_def player_boot_def buttons_boot_def
    board_reading_def time_reached_def at_deadline_def
  have u1: "update_sound catalogue ?s0 = Inr s1"
    unfolding s1_def by (rule three_notes_first) (simp_all add: start)
  have w1: "update_sound catalogue s1 =
              Inr (s1\<lparr>player := (player s1)\<lparr>freq_mult := new_freq_mult s1\<rparr>,
                      pico := (pico s1)\<lparr>adc_selected := 1\<rparr>\<rparr>)"
    by (rule update_sound_waiting) (simp_all add: s1_def start)
  have u2: "update_sound catalogue d1 = Inr s2"
    unfolding s2_def by (rule three_notes_second) (simp_all add: d1_def s1_def start)
  have w2: "update_sound catalogue s2 =
              Inr (s2\<lparr>player := (player s2)\<lparr>freq_mult := new_freq_mult s2\<rparr>,
                      pico := (pico s2)\<lparr>adc_selected := 1\<rparr>\<rparr>)"
    by (rule update_sound_waiting) (simp_all add: s2_def d1_def s1_def start)
  have u3: "update_sound catalogue d2 = Inr s3"
    unfolding s3_def
    by (rule three_notes_third) (simp_all add: d2_def s2_def d1_def s1_def start)
  have w3: "update_sound catalogue s3 =
              Inr (s3\<lparr>player := (player s3)\<lparr>freq_mult := new_freq_mult s3\<rparr>,
                      pico := (pico s3)\<lparr>adc_selected := 1\<rparr>\<rparr>)"
    by (rule update_sound_waiting) (simp_all add: s3_def d2_def s2_def d1_def s1_def start)
  have u4: "update_sound catalogue d3 = Inr s4"
    unfolding s4_def
    by (rule three_notes_end) (simp_all add: d3_def s3_def d2_def s2_def d1_def s1_def start)
  have u5: "update_sound catalogue d4 = Inr s5"
    unfolding s5_def
    by (rule update_sound_not_playing) (simp add: d4_def s4_def at_deadline_def)
  note toggle = handle_input_def handle_button_a_def handle_button_b_def
  have u6: "update_sound catalogue t5 = Inr s6"
    unfolding s6_def
    by (rule three_notes_first)
      (simp_all add: t5_def toggle s5_def d4_def s4_def d3_def s3_def d2_def s2_def d1_def
        s1_def start)
  have p6: "trace (pico s6) = trace (pico s5) @ tone_events BUZZER_PIN 440 200 2271"
    "current_freq (player s6) = 440" "current_note (player s6) = 1" "is_playing (player s6)"
    by (simp_all add: s6_def t5_def toggle s5_def d4_def s4_def at_deadline_def)
  have p1: "trace (pico s1) = tone_events BUZZER_PIN 440 200 2271"
    "current_freq (player s1) = 440" "current_note (player s1) = 1" "is_playing (player s1)"
    "next_note_time (player s1) = now (pico s1) + 200000"
    by (simp_all add: s1_def start)
  have p2: "trace (pico s2) = trace (pico s1) @ [Sleep_ms 100]"
    "current_freq (player s2) = 0" "current_note (player s2) = 2" "is_playing (player s2)"
    "next_note_time (player s2) = now (pico s2) + 100000"
    by (simp_all add: s2_def d1_def s1_def start)
  have p3: "trace (pico s3) = trace (pico s2) @ tone_events BUZZER_PIN 880 300 1135"
    "current_freq (player s3) = 880" "current_note (player s3) = 3" "is_playing (player s3)"
    "next_note_time (player s3) = now (pico s3) + 300000"
    by (simp_all add: s3_def d2_def s2_def d1_def s1_def start)
  have p4: "trace (pico s4) = trace (pico s3)" "current_note (player s4) = 3"
    "\<not> is_playing (player s4)"
    by (simp_all add: s4_def d3_def s3_def at_deadline_def)
  have p5: "trace (pico s5) = trace (pico s4) @ [Pwm_set_gpio_level BUZZER_PIN 0]"
    "current_note (player s5) = 3" "\<not> is_playing (player s5)"
    by (simp_all add: s5_def d4_def s4_def d3_def s3_def at_deadline_def)
  show ?thesis
    apply (rule exI [of _ s1], rule exI [of _ s2], rule exI [of _ s3], rule exI [of _ s4],
        rule exI [of _ s5], rule exI [of _ s6])
    apply (rule exI [of _ "s1\<lparr>player := (player s1)\<lparr>freq_mult := new_freq_mult s1\<rparr>,
                      pico := (pico s1)\<lparr>adc_selected := 1\<rparr>\<rparr>"])
    apply (rule exI [of _ "s2\<lparr>player := (player s2)\<lparr>freq_mult := new_freq_mult s2\<rparr>,
                      pico := (pico s2)\<lparr>adc_selected := 1\<rparr>\<rparr>"])
    apply (rule exI [of _ "s3\<lparr>player := (player s3)\<lparr>freq_mult := new_freq_mult s3\<rparr>,
                      pico := (pico s3)\<lparr>adc_selected := 1\<rparr>\<rparr>"])
    using u1 w1 u2 w2 u3 w3 u4 u5 u6 p1 p2 p3 p4 p5 p6
    unfolding d1_def [symmetric] d2_def [symmetric] d3_def [symmetric] d4_def [symmetric]
      t5_def [symmetric]
    by simp
qed

text \<open>
  C6 as stated fails: from the same start, stored multiplier 1, the first command is
  (439, 200) with the joystick reading 2047, the reading next below the centre, and
  (220, 200) with the joystick reading 0.
\<close>

theorem three_note_playback_counterexample:
  "freq_mult (player (playing_from_start 2047)) = Fin 1 \<and>
   update_sound catalogue (playing_from_start 2047) =
     Inr ((playing_from_start 2047)
            \<lparr>player := \<lparr>current_note = 1, is_playing = True, next_note_time = 1400000,
                        freq_mult = Fin (8191 / 8192), current_freq = 439\<rparr>,
             pico := (board_reading 2047)
                       \<lparr>adc_selected := 1, now := 1200000,
                        trace := tone_events BUZZER_PIN 439 200 2276\<rparr>\<rparr>) \<and>
   freq_mult (player (playing_from_start 0)) = Fin 1 \<and>
   update_sound catalogue (playing_from_start 0) =
     Inr ((playing_from_start 0)
            \<lparr>player := \<lparr>current_note = 1, is_playing = True, next_note_time = 1400000,
                        freq_mult = Fin (1 / 2), current_freq = 220\<rparr>,
             pico := (board_reading 0)
                       \<lparr>adc_selected := 1, now := 1200000,
                        trace := tone_events BUZZER_PIN 220 200 4544\<rparr>\<rparr>)"
proof -
  have start: "is_playing (player (playing_from_start x))"
    "time_reached (pico (playing_from_start x)) (next_note_time (player (playing_from_start x)))"
    "array_read_int catalogue (index (buttons (playing_from_start x))) = Inr three_notes"
    "sint (current_note (player (playing_from_start x))) < sint (melody_length three_notes)"
    "array_read_int (melody three_notes) (current_note (player (playing_from_start x))) =
       Inr 440"
    "array_read_int (durations three_notes) (current_note (player (playing_from_start x))) =
       Inr 200" for x
    by (simp_all add: playing_from_start_def genius_boot_def player_boot_def buttons_boot_def
        board_reading_def time_reached_def array_read_int_def array_read_def catalogue_def
        three_notes_def)
  have positive: "0 < sint (440 :: 32 word)"
    by simp
  have reading: "adc_channel (pico (playing_from_start x)) 0 = x"
    and clock: "clk_sys_hz (pico (playing_from_start x)) = 125000000" for x
    by (simp_all add: playing_from_start_def genius_boot_def board_reading_def)
  have nf1: "new_freq_mult (playing_from_start 2047) = Fin (8191 / 8192)"
    using reading [of 2047] by (simp only: new_freq_mult_reading fm_2047)
  have f1: "f32_to_int32 (f32_mul (f32_of_int (sint (440 :: 32 word)))
              (new_freq_mult (playing_from_start 2047))) = Inr 439"
    unfolding nf1 by (rule conv_440_below)
  have w1: "calculate_wrap (clk_sys_hz (pico (playing_from_start 2047))) 439 CLK_DIV_DEFAULT =
              Inr 2276"
    unfolding clock by (rule wrap_439)
  have nf2: "new_freq_mult (playing_from_start 0) = Fin (1 / 2)"
    using reading [of 0] by (simp only: new_freq_mult_reading fm_0)
  have f2: "f32_to_int32 (f32_mul (f32_of_int (sint (440 :: 32 word)))
              (new_freq_mult (playing_from_start 0))) = Inr 220"
    unfolding nf2 by (rule conv_440_lo)
  have w2: "calculate_wrap (clk_sys_hz (pico (playing_from_start 0))) 220 CLK_DIV_DEFAULT =
              Inr 4544"
    unfolding clock by (rule wrap_220)
  have one: "freq_mult (player (playing_from_start x)) = Fin 1" for x
    by (simp add: playing_from_start_def)
  have u1: "update_sound catalogue (playing_from_start 2047) =
     Inr ((playing_from_start 2047)
            \<lparr>player := \<lparr>current_note = 1, is_playing = True, next_note_time = 1400000,
                        freq_mult = Fin (8191 / 8192), current_freq = 439\<rparr>,
             pico := (board_reading 2047)
                       \<lparr>adc_selected := 1, now := 1200000,
                        trace := tone_events BUZZER_PIN 439 200 2276\<rparr>\<rparr>)"
    using update_sound_tone [OF start [of 2047] positive f1 w1] nf1
    by (simp add: playing_from_start_def genius_boot_def board_reading_def player_boot_def)
  have u2: "update_sound catalogue (playing_from_start 0) =
     Inr ((playing_from_start 0)
            \<lparr>player := \<lparr>current_note = 1, is_playing = True, next_note_time = 1400000,
                        freq_mult = Fin (1 / 2), current_freq = 220\<rparr>,
             pico := (board_reading 0)
                       \<lparr>adc_selected := 1, now := 1200000,
                        trace := tone_events BUZZER_PIN 220 200 4544\<rparr>\<rparr>)"
    using update_sound_tone [OF start [of 0] positive f2 w2] nf2
    by (simp add: playing_from_start_def genius_boot_def board_reading_def player_boot_def)
  show ?thesis
    using one u1 u2 by simp
qed

end
